theory Spec2Isabelle
  imports Main "HOL-Library.AList"
begin

section \<open>Values, errors and the graph model\<close>

text \<open>
  The executor works on JSON-shaped data. A value (\<open>Any\<close> in the source) is a string,
  an integer, a boolean or \<open>None\<close>; floating point numbers are left out. Text is an
  Isabelle \<open>string\<close>; a character outside ASCII stands as its UTF-8 bytes, and the
  length of a text counts its characters, not its bytes (\<open>py_len\<close>).
\<close>

datatype pyval = PStr string | PInt int | PBool bool | PNone

text \<open>
  Exceptions are values. The first six are the Python exceptions the source can raise.
  \<open>ExternalServiceError\<close> stands for whatever the chat model client raises.
  \<open>StructuralError\<close> and \<open>RecursionLimitError\<close> are raised by the graph engine only
  (see \<open>run_loop\<close>).
\<close>

datatype error =
    KeyError | TypeError | ValueError | AttributeError | StopIteration | RuntimeError
  | ExternalServiceError | StructuralError | RecursionLimitError

text \<open>
  \<open>workflow.py\<close>. The handlers read a value slot as
  \<open>param["input"]["value"]\<close>: when its \<open>"type"\<close> is \<open>"ref"\<close> the \<open>"content"\<close> holds
  \<open>blockID\<close> and \<open>name\<close>, otherwise the content is the literal. Keys with a default
  (\<open>.get(key, default)\<close>) are \<open>option\<close> fields, \<open>None\<close> for an absent key. Display
  metadata, which no handler reads, is left out.
\<close>

datatype ValueContent = is_literal: Literal pyval | is_ref: Ref (blockID: string) (name: string)

record InputValue =
  vtype :: string
  val :: ValueContent

record InputParameter =
  input :: InputValue
  pname :: string

record Condition =
  left :: "(string \<times> InputValue) list"
  operator :: int
  right :: "(string \<times> InputValue) list"

record ConditionConfig =
  conditions :: "Condition list"
  logic :: int

record Branch =
  condition :: ConditionConfig

record NodeInputs =
  inputParameters :: "InputParameter list option"
  branches :: "Branch list option"

record Parameter =
  param_name :: string
  required :: bool
  param_type :: string

record NodeData =
  outputs :: "Parameter list option"
  inputs :: "NodeInputs option"

record Node =
  data :: NodeData
  node_id :: string
  node_type :: string

record Edge =
  sourceNodeID :: string
  targetNodeID :: string
  sourcePortID :: string

record WorkflowJson =
  json_nodes :: "Node list"
  json_edges :: "Edge list"
  json_versions :: "(string \<times> string) list"

record Workflow =
  nodes :: "Node list"
  edges :: "Edge list"
  versions :: "(string \<times> string) list"

text \<open>The values of \<open>NodeType\<close>.\<close>

definition START :: string where "START = ''1''"
definition END :: string where "END = ''2''"
definition LLM :: string where "LLM = ''3''"
definition KB :: string where "KB = ''4''"
definition CONDITION :: string where "CONDITION = ''8''"

definition get_node_by_id :: "Workflow \<Rightarrow> string \<Rightarrow> Node option" where
  "get_node_by_id w i = find (\<lambda>node. node_id node = i) (nodes w)"

fun validate_loop :: "Node list \<Rightarrow> bool \<Rightarrow> bool \<Rightarrow> bool" where
  "validate_loop [] has_start has_end = (has_start \<and> has_end)"
| "validate_loop (node # rest) has_start has_end =
     (if node_type node = START then validate_loop rest True has_end
      else if node_type node = END then validate_loop rest has_start True
      else validate_loop rest has_start has_end)"

definition validate :: "Workflow \<Rightarrow> bool" where
  "validate w = validate_loop (nodes w) False False"

definition create_workflow_from_json :: "WorkflowJson \<Rightarrow> Workflow" where
  "create_workflow_from_json json_data =
     \<lparr>nodes = json_nodes json_data, edges = json_edges json_data,
      versions = json_versions json_data\<rparr>"

section \<open>The execution state\<close>

record NodeOutput =
  out_value :: pyval
  out_type :: string

text \<open>
  \<open>WorkflowState\<close> is a dict; \<open>"condition_result"\<close> is a key the condition handler
  adds, absent before; it stays in the state from one step to the next, as the pending
  routing tag of the specification's run state does. Dicts that the run assigns to are
  association lists, assigned with \<open>AList.update\<close> and read with \<open>map_of\<close>.
\<close>

record WorkflowState =
  node_outputs :: "(string \<times> (string \<times> NodeOutput) list) list"
  current_node :: string
  final_output :: pyval
  condition_result :: "string option"

text \<open>
  The graph object of the library that the executor holds (\<open>self.graph\<close>). Its calls
  \<open>add_node\<close> and \<open>add_edge\<close> raise \<open>ValueError\<close> on arguments that the library
  refuses. That \<open>add_node\<close> refuses a node name that is already present is written out
  in \<open>add_nodes\<close>; which other names and which edges the library refuses is its own
  rule, and is a parameter here.
\<close>

record GraphRules =
  refuses_node :: "string \<Rightarrow> bool"
  refuses_edge :: "string \<Rightarrow> string \<Rightarrow> bool"

text \<open>
  The executor holds the workflow, the graph object and the chat model.
  \<open>chat_model ex prompt\<close> is \<open>self.chat_model.invoke(prompt).content\<close>, which may raise.
\<close>

record WorkflowExecutor =
  workflow :: Workflow
  graph_rules :: GraphRules
  chat_model :: "string \<Rightarrow> error + string"

text \<open>\<open>state["node_outputs"][source_node][output_name]["value"]\<close>\<close>

definition node_output_value :: "WorkflowState \<Rightarrow> string \<Rightarrow> string \<Rightarrow> error + pyval" where
  "node_output_value state source_node output_name =
     (case map_of (node_outputs state) source_node of
        None \<Rightarrow> Inl KeyError
      | Some outs \<Rightarrow>
          (case map_of outs output_name of
             None \<Rightarrow> Inl KeyError
           | Some out \<Rightarrow> Inr (out_value out)))"

text \<open>Whether the store holds the output \<open>output_name\<close> of the node \<open>source_node\<close>.\<close>

definition produced :: "WorkflowState \<Rightarrow> string \<Rightarrow> string \<Rightarrow> bool" where
  "produced state source_node output_name =
     (case map_of (node_outputs state) source_node of
        None \<Rightarrow> False
      | Some outs \<Rightarrow> map_of outs output_name \<noteq> None)"

text \<open>\<open>node_data.get("inputs", {}).get("inputParameters", [])\<close> and the same for branches.\<close>

definition input_params :: "Node \<Rightarrow> InputParameter list" where
  "input_params node =
     (case inputs (data node) of
        None \<Rightarrow> []
      | Some inputs_data \<Rightarrow>
          (case inputParameters inputs_data of None \<Rightarrow> [] | Some ps \<Rightarrow> ps))"

definition node_branches :: "Node \<Rightarrow> Branch list" where
  "node_branches node =
     (case inputs (data node) of
        None \<Rightarrow> []
      | Some inputs_data \<Rightarrow>
          (case branches inputs_data of None \<Rightarrow> [] | Some bs \<Rightarrow> bs))"

section \<open>Node handlers\<close>

definition handle_start_node :: "WorkflowExecutor \<Rightarrow> WorkflowState \<Rightarrow> error + WorkflowState" where
  "handle_start_node ex state =
     (case get_node_by_id (workflow ex) (current_node state) of
        None \<Rightarrow> Inl AttributeError
      | Some node \<Rightarrow> Inr state)"

text \<open>
  The loop of the model node that fills \<open>inputs\<close>: a dict, so a repeated parameter name
  keeps its first position and takes the last value.
\<close>

fun llm_inputs ::
  "WorkflowState \<Rightarrow> InputParameter list \<Rightarrow> (string \<times> pyval) list \<Rightarrow> error + (string \<times> pyval) list"
where
  "llm_inputs state [] acc = Inr acc"
| "llm_inputs state (param # rest) acc =
     (case val (input param) of
        Ref source_node output_name \<Rightarrow>
          (case node_output_value state source_node output_name of
             Inl e \<Rightarrow> Inl e
           | Inr v \<Rightarrow> llm_inputs state rest (AList.update (pname param) v acc))
      | Literal c \<Rightarrow> llm_inputs state rest (AList.update (pname param) c acc))"

text \<open>\<open>"".join(values)\<close> raises \<open>TypeError\<close> on a value that is not a string.\<close>

fun str_join :: "pyval list \<Rightarrow> error + string" where
  "str_join [] = Inr []"
| "str_join (PStr s # vs) =
     (case str_join vs of Inl e \<Rightarrow> Inl e | Inr r \<Rightarrow> Inr (s @ r))"
| "str_join (v # vs) = Inl TypeError"

definition handle_llm_node :: "WorkflowExecutor \<Rightarrow> WorkflowState \<Rightarrow> error + WorkflowState" where
  "handle_llm_node ex state =
     (case get_node_by_id (workflow ex) (current_node state) of
        None \<Rightarrow> Inl AttributeError
      | Some node \<Rightarrow>
          (case llm_inputs state (input_params node) [] of
             Inl e \<Rightarrow> Inl e
           | Inr inps \<Rightarrow>
               (case str_join (map snd inps) of
                  Inl e \<Rightarrow> Inl e
                | Inr input_str \<Rightarrow>
                    (case chat_model ex input_str of
                       Inl e \<Rightarrow> Inl e
                     | Inr output \<Rightarrow>
                         Inr (state\<lparr>node_outputs :=
                           AList.update (node_id node)
                             [(''output'', \<lparr>out_value = PStr output, out_type = ''string''\<rparr>)]
                             (node_outputs state)\<rparr>)))))"


subsection \<open>The condition node\<close>

fun get_condition_value ::
  "WorkflowState \<Rightarrow> (string \<times> InputValue) list \<Rightarrow> error + pyval"
where
  "get_condition_value state [] = Inr PNone"
| "get_condition_value state ((k, input_value) # rest) =
     (case val input_value of
        Ref source_node output_name \<Rightarrow> node_output_value state source_node output_name
      | Literal c \<Rightarrow> Inr c)"

text \<open>Whether reading an operand would read an output that the store does not hold.\<close>

definition dangling_operand :: "WorkflowState \<Rightarrow> (string \<times> InputValue) list \<Rightarrow> bool" where
  "dangling_operand state operand =
     (case operand of
        [] \<Rightarrow> False
      | (k, input_value) # rest \<Rightarrow>
          (case val input_value of
             Literal c \<Rightarrow> False
           | Ref b n \<Rightarrow> \<not> produced state b n))"

text \<open>
  Python's \<open>==\<close> on these values: a boolean equals the integer 0 or 1 it stands for.
\<close>

fun py_eq :: "pyval \<Rightarrow> pyval \<Rightarrow> bool" where
  "py_eq (PStr a) (PStr b) = (a = b)"
| "py_eq (PInt a) (PInt b) = (a = b)"
| "py_eq (PBool a) (PBool b) = (a = b)"
| "py_eq (PInt a) (PBool b) = (a = (if b then 1 else 0))"
| "py_eq (PBool a) (PInt b) = (b = (if a then 1 else 0))"
| "py_eq PNone PNone = True"
| "py_eq x y = False"

text \<open>
  \<open>len\<close> of a text counts characters: in UTF-8, every byte but the continuation bytes
  \<open>0x80\<close> to \<open>0xBF\<close> starts one.
\<close>

definition continuation_byte :: "char \<Rightarrow> bool" where
  "continuation_byte c = (128 \<le> (of_char c :: nat) \<and> (of_char c :: nat) < 192)"

fun py_len :: "pyval \<Rightarrow> error + nat" where
  "py_len (PStr s) = Inr (length (filter (\<lambda>c. \<not> continuation_byte c) s))"
| "py_len v = Inl TypeError"

text \<open>
  \<open>int(s)\<close> on text: blanks around (tab, line feed, vertical tab, form feed,
  carriage return, space), one optional sign, decimal digits, with single underscores
  allowed between digits. The digits and blanks outside ASCII that Python also accepts
  in a text that is not ASCII, and its limit on the number of digits, are not modelled.
\<close>

definition is_space :: "char \<Rightarrow> bool" where
  "is_space c = (c \<in> set [CHR 0x09, CHR 0x0A, CHR 0x0B, CHR 0x0C, CHR 0x0D, CHR 0x20])"

definition is_digit :: "char \<Rightarrow> bool" where
  "is_digit c = (c \<in> set ''0123456789'')"

definition digit_val :: "char \<Rightarrow> nat" where
  "digit_val c = of_char c - 48"

fun digits :: "string \<Rightarrow> nat \<Rightarrow> nat option" where
  "digits [] acc = Some acc"
| "digits [c] acc = (if is_digit c then Some (10 * acc + digit_val c) else None)"
| "digits (c # d # ds) acc =
     (if is_digit c then digits (d # ds) (10 * acc + digit_val c)
      else if c = CHR ''_'' \<and> is_digit d then digits ds (10 * acc + digit_val d)
      else None)"

fun unsigned :: "string \<Rightarrow> nat option" where
  "unsigned [] = None"
| "unsigned (c # cs) = (if is_digit c then digits cs (digit_val c) else None)"

definition strip :: "string \<Rightarrow> string" where
  "strip s = rev (dropWhile is_space (rev (dropWhile is_space s)))"

definition int_of_str :: "string \<Rightarrow> int option" where
  "int_of_str s =
     (case strip s of
        [] \<Rightarrow> None
      | c # cs \<Rightarrow>
          if c = CHR ''-'' then map_option (\<lambda>n. - int n) (unsigned cs)
          else if c = CHR ''+'' then map_option int (unsigned cs)
          else map_option int (unsigned (c # cs)))"

fun py_int :: "pyval \<Rightarrow> error + int" where
  "py_int (PStr s) = (case int_of_str s of None \<Rightarrow> Inl ValueError | Some i \<Rightarrow> Inr i)"
| "py_int (PInt i) = Inr i"
| "py_int (PBool b) = Inr (if b then 1 else 0)"
| "py_int PNone = Inl TypeError"

definition compare_values :: "pyval \<Rightarrow> int \<Rightarrow> pyval \<Rightarrow> error + bool" where
  "compare_values l op r =
     (if op = 1 then Inr (py_eq l r)
      else if op = 2 then Inr (\<not> py_eq l r)
      else if op = 3 then
        (case py_len l of
           Inl e \<Rightarrow> Inl e
         | Inr n \<Rightarrow> (case py_int r of Inl e \<Rightarrow> Inl e | Inr k \<Rightarrow> Inr (int n > k)))
      else if op = 4 then
        (case py_len l of
           Inl e \<Rightarrow> Inl e
         | Inr n \<Rightarrow> (case py_int r of Inl e \<Rightarrow> Inl e | Inr k \<Rightarrow> Inr (int n < k)))
      else Inr False)"

text \<open>One pass of the loop over \<open>conditions\<close>: both operands, then the comparison.\<close>

definition eval_condition :: "WorkflowState \<Rightarrow> Condition \<Rightarrow> error + bool" where
  "eval_condition state c =
     (case get_condition_value state (left c) of
        Inl e \<Rightarrow> Inl e
      | Inr left_value \<Rightarrow>
          (case get_condition_value state (right c) of
             Inl e \<Rightarrow> Inl e
           | Inr right_value \<Rightarrow> compare_values left_value (operator c) right_value))"

fun eval_conditions :: "WorkflowState \<Rightarrow> Condition list \<Rightarrow> error + WorkflowState" where
  "eval_conditions state [] = Inr (state\<lparr>condition_result := Some ''false''\<rparr>)"
| "eval_conditions state (c # cs) =
     (case eval_condition state c of
        Inl e \<Rightarrow> Inl e
      | Inr satisfied \<Rightarrow>
          if satisfied then Inr (state\<lparr>condition_result := Some ''true''\<rparr>)
          else eval_conditions state cs)"

definition handle_condition_node ::
  "WorkflowExecutor \<Rightarrow> WorkflowState \<Rightarrow> error + WorkflowState"
where
  "handle_condition_node ex state =
     (case get_node_by_id (workflow ex) (current_node state) of
        None \<Rightarrow> Inl AttributeError
      | Some node \<Rightarrow>
          (case node_branches node of
             [] \<Rightarrow> Inr (state\<lparr>condition_result := Some ''true''\<rparr>)
           | branch # later \<Rightarrow> eval_conditions state (conditions (condition branch))))"

definition should_continue :: "WorkflowState \<Rightarrow> string" where
  "should_continue state =
     (case condition_result state of None \<Rightarrow> ''false'' | Some r \<Rightarrow> r)"

subsection \<open>The end node and the knowledge base node\<close>

fun end_output :: "WorkflowState \<Rightarrow> InputParameter list \<Rightarrow> error + WorkflowState" where
  "end_output state [] = Inr state"
| "end_output state (param # rest) =
     (case val (input param) of
        Ref source_node output_name \<Rightarrow>
          (case node_output_value state source_node output_name of
             Inl e \<Rightarrow> Inl e
           | Inr v \<Rightarrow> Inr (state\<lparr>final_output := v\<rparr>))
      | Literal c \<Rightarrow> end_output state rest)"

definition handle_end_node :: "WorkflowExecutor \<Rightarrow> WorkflowState \<Rightarrow> error + WorkflowState" where
  "handle_end_node ex state =
     (case get_node_by_id (workflow ex) (current_node state) of
        None \<Rightarrow> Inl AttributeError
      | Some node \<Rightarrow> end_output state (input_params node))"

fun kb_query :: "WorkflowState \<Rightarrow> InputParameter list \<Rightarrow> pyval \<Rightarrow> error + pyval" where
  "kb_query state [] query = Inr query"
| "kb_query state (param # rest) query =
     (case val (input param) of
        Ref source_node output_name \<Rightarrow>
          (case node_output_value state source_node output_name of
             Inl e \<Rightarrow> Inl e
           | Inr v \<Rightarrow> kb_query state rest v)
      | Literal c \<Rightarrow> kb_query state rest query)"

text \<open>The text that the knowledge base node assigns to \<open>context\<close>, in UTF-8.\<close>

definition kb_context :: string where
  "kb_context =
     [CHR 0xE8, CHR 0xBF, CHR 0x99, CHR 0xE9, CHR 0x87, CHR 0x8C, CHR 0xE6, CHR 0x98,
      CHR 0xAF, CHR 0xE4, CHR 0xBB, CHR 0x8E, CHR 0xE7, CHR 0x9F, CHR 0xA5, CHR 0xE8,
      CHR 0xAF, CHR 0x86, CHR 0xE5, CHR 0xBA, CHR 0x93, CHR 0xE6, CHR 0xA3, CHR 0x80,
      CHR 0xE7, CHR 0xB4, CHR 0xA2, CHR 0xE5, CHR 0x88, CHR 0xB0, CHR 0xE7, CHR 0x9A,
      CHR 0x84, CHR 0xE7, CHR 0x9B, CHR 0xB8, CHR 0xE5, CHR 0x85, CHR 0xB3, CHR 0xE5,
      CHR 0x86, CHR 0x85, CHR 0xE5, CHR 0xAE, CHR 0xB9, CHR 0x2E, CHR 0x2E, CHR 0x2E]"

definition handle_kb_node :: "WorkflowExecutor \<Rightarrow> WorkflowState \<Rightarrow> error + WorkflowState" where
  "handle_kb_node ex state =
     (case get_node_by_id (workflow ex) (current_node state) of
        None \<Rightarrow> Inl AttributeError
      | Some node \<Rightarrow>
          (case kb_query state (input_params node) (PStr []) of
             Inl e \<Rightarrow> Inl e
           | Inr query \<Rightarrow>
               Inr (state\<lparr>node_outputs :=
                 AList.update (node_id node)
                   [(''context'', \<lparr>out_value = PStr kb_context, out_type = ''string''\<rparr>)]
                   (node_outputs state)\<rparr>)))"

section \<open>Building the graph\<close>

definition supported :: "string \<Rightarrow> bool" where
  "supported t = (t \<in> {START, LLM, CONDITION, END, KB})"

datatype handler = HandleStart | HandleLLM | HandleCondition | HandleEnd | HandleKB

definition create_node_handler :: "string \<Rightarrow> error + handler" where
  "create_node_handler t =
     (if t = START then Inr HandleStart
      else if t = LLM then Inr HandleLLM
      else if t = CONDITION then Inr HandleCondition
      else if t = END then Inr HandleEnd
      else if t = KB then Inr HandleKB
      else Inl ValueError)"

definition run_handler ::
  "WorkflowExecutor \<Rightarrow> handler \<Rightarrow> WorkflowState \<Rightarrow> error + WorkflowState"
where
  "run_handler ex h state =
     (case h of
        HandleStart \<Rightarrow> handle_start_node ex state
      | HandleLLM \<Rightarrow> handle_llm_node ex state
      | HandleCondition \<Rightarrow> handle_condition_node ex state
      | HandleEnd \<Rightarrow> handle_end_node ex state
      | HandleKB \<Rightarrow> handle_kb_node ex state)"

text \<open>\<open>wrapped_handler\<close> of \<open>build\<close>: the closure over the node's ID and its handler.\<close>

definition wrapped_handler ::
  "WorkflowExecutor \<Rightarrow> string \<Rightarrow> handler \<Rightarrow> WorkflowState \<Rightarrow> error + WorkflowState"
where
  "wrapped_handler ex nid h state = run_handler ex h (state\<lparr>current_node := nid\<rparr>)"

text \<open>
  What \<open>build\<close> hands to the graph library: the registered nodes, the conditional
  edges grouped by source node (routed by \<open>should_continue\<close>), the plain edges, the entry
  and the finish point. The graph is the empty one that the executor's constructor
  made, so this is the first \<open>build\<close> of an executor.
\<close>

record StateGraph =
  graph_nodes :: "(string \<times> handler) list"
  condition_edges :: "(string \<times> (string \<times> string) list) list"
  plain_edges :: "(string \<times> string) list"
  entry_point :: string
  finish_point :: string

text \<open>The names under which the library keeps its own entry and exit.\<close>

definition graph_START :: string where "graph_START = ''__start__''"
definition graph_END :: string where "graph_END = ''__end__''"

text \<open>
  The loop over the nodes. The handler is made first (an unsupported type raises
  \<open>ValueError\<close>), then \<open>add_node\<close> raises \<open>ValueError\<close> for a name that is already
  present, or that the library refuses.
\<close>

fun add_nodes ::
  "GraphRules \<Rightarrow> Node list \<Rightarrow> (string \<times> handler) list \<Rightarrow> error + (string \<times> handler) list"
where
  "add_nodes rules [] g = Inr g"
| "add_nodes rules (node # rest) g =
     (case create_node_handler (node_type node) of
        Inl e \<Rightarrow> Inl e
      | Inr h \<Rightarrow>
          if map_of g (node_id node) \<noteq> None \<or> refuses_node rules (node_id node)
          then Inl ValueError
          else add_nodes rules rest (AList.update (node_id node) h g))"

text \<open>
  The loop that collects the edges with a source port. \<open>add_conditional_edges\<close> is
  then called once for each source node, with the paths collected for it.
\<close>

fun collect_condition_edges ::
  "Edge list \<Rightarrow> (string \<times> (string \<times> string) list) list \<Rightarrow> (string \<times> (string \<times> string) list) list"
where
  "collect_condition_edges [] ce = ce"
| "collect_condition_edges (edge # rest) ce =
     (if sourcePortID edge \<noteq> [] then
        collect_condition_edges rest
          (AList.update (sourceNodeID edge)
             (AList.update (sourcePortID edge) (targetNodeID edge)
                (case map_of ce (sourceNodeID edge) of None \<Rightarrow> [] | Some paths \<Rightarrow> paths))
             ce)
      else collect_condition_edges rest ce)"

text \<open>
  The loop over the edges without a source port: \<open>add_edge\<close> raises \<open>ValueError\<close> for
  an edge that the library refuses.
\<close>

fun add_edges ::
  "GraphRules \<Rightarrow> Edge list \<Rightarrow> (string \<times> string) list \<Rightarrow> error + (string \<times> string) list"
where
  "add_edges rules [] es = Inr es"
| "add_edges rules (edge # rest) es =
     (if sourcePortID edge = [] then
        (if refuses_edge rules (sourceNodeID edge) (targetNodeID edge) then Inl ValueError
         else add_edges rules rest (es @ [(sourceNodeID edge, targetNodeID edge)]))
      else add_edges rules rest es)"

text \<open>
  \<open>set_entry_point\<close> and \<open>set_finish_point\<close> are the library's \<open>add_edge\<close> from its
  entry to the start node, and from the end node to its exit.
\<close>

definition build :: "WorkflowExecutor \<Rightarrow> error + StateGraph" where
  "build ex =
     (case add_nodes (graph_rules ex) (nodes (workflow ex)) [] of
        Inl e \<Rightarrow> Inl e
      | Inr registered \<Rightarrow>
          (case add_edges (graph_rules ex) (edges (workflow ex)) [] of
             Inl e \<Rightarrow> Inl e
           | Inr plain \<Rightarrow>
               (case find (\<lambda>node. node_type node = START) (nodes (workflow ex)) of
                  None \<Rightarrow> Inl StopIteration
                | Some start_node \<Rightarrow>
                    (case find (\<lambda>node. node_type node = END) (nodes (workflow ex)) of
                       None \<Rightarrow> Inl StopIteration
                     | Some end_node \<Rightarrow>
                         if refuses_edge (graph_rules ex) graph_START (node_id start_node)
                         then Inl ValueError
                         else if refuses_edge (graph_rules ex) (node_id end_node) graph_END
                         then Inl ValueError
                         else
                           Inr \<lparr>graph_nodes = registered,
                                condition_edges =
                                  collect_condition_edges (edges (workflow ex)) [],
                                plain_edges = plain,
                                entry_point = node_id start_node,
                                finish_point = node_id end_node\<rparr>))))"

text \<open>
  When the graph object accepts all nodes of a workflow: every node type is supported,
  no node ID is repeated and the library refuses none of the names. And when it
  accepts all its edges without a source port.
\<close>

definition nodes_accepted :: "GraphRules \<Rightarrow> Node list \<Rightarrow> bool" where
  "nodes_accepted rules ns =
     ((\<forall>n\<in>set ns. supported (node_type n) \<and> \<not> refuses_node rules (node_id n)) \<and>
      distinct (map node_id ns))"

definition edges_accepted :: "GraphRules \<Rightarrow> Edge list \<Rightarrow> bool" where
  "edges_accepted rules es =
     (\<forall>e\<in>set es. sourcePortID e = [] \<longrightarrow>
        \<not> refuses_edge rules (sourceNodeID e) (targetNodeID e))"

section \<open>The run loop\<close>

text \<open>The target that the conditional edges hold for a source node and a tag.\<close>

definition route ::
  "(string \<times> (string \<times> string) list) list \<Rightarrow> string \<Rightarrow> string \<Rightarrow> string option"
where
  "route ce s tag = (case map_of ce s of None \<Rightarrow> None | Some paths \<Rightarrow> map_of paths tag)"

text \<open>
  Modelled from the spec: the graph engine that \<open>run\<close> calls (\<open>graph.compile()\<close> and
  \<open>app.ainvoke(initial_state, {"recursion_limit": ...})\<close> of the graph library) is not in
  the source. \<open>successor\<close>, \<open>run_loop\<close> and \<open>ainvoke\<close> follow section 4.5 of the
  specification: invoke the current node's handler; stop with success when the current
  node is the finish point; otherwise take the successor, from the conditional edges of
  the node when it has any (by the routing tag that \<open>should_continue\<close> reads), else from
  the first plain edge; a missing node or successor is a \<open>StructuralError\<close>; a step
  budget bounds the number of handler calls, and exceeding it is a
  \<open>RecursionLimitError\<close>. The state a handler returns is the state of the next step.
\<close>

definition successor :: "StateGraph \<Rightarrow> string \<Rightarrow> WorkflowState \<Rightarrow> error + string" where
  "successor g cur state =
     (case map_of (condition_edges g) cur of
        Some paths \<Rightarrow>
          (case map_of paths (should_continue state) of
             None \<Rightarrow> Inl StructuralError
           | Some target \<Rightarrow> Inr target)
      | None \<Rightarrow>
          (case map_of (plain_edges g) cur of
             None \<Rightarrow> Inl StructuralError
           | Some target \<Rightarrow> Inr target))"

text \<open>
  Modelled from the spec: the loop of section 4.5, for the engine that is not in the
  source. The first component of the result lists the nodes whose handlers were
  invoked, in order; it is bookkeeping for the proofs and not part of what the program
  returns.
\<close>

fun run_loop ::
  "WorkflowExecutor \<Rightarrow> StateGraph \<Rightarrow> nat \<Rightarrow> string \<Rightarrow> WorkflowState
     \<Rightarrow> string list \<times> (error + WorkflowState)"
where
  "run_loop ex g 0 cur state = ([], Inl RecursionLimitError)"
| "run_loop ex g (Suc budget) cur state =
     (case map_of (graph_nodes g) cur of
        None \<Rightarrow> ([], Inl StructuralError)
      | Some h \<Rightarrow>
          (case wrapped_handler ex cur h state of
             Inl e \<Rightarrow> ([cur], Inl e)
           | Inr state' \<Rightarrow>
               if cur = finish_point g then ([cur], Inr state')
               else
                 (case successor g cur state' of
                    Inl e \<Rightarrow> ([cur], Inl e)
                  | Inr nxt \<Rightarrow>
                      (case run_loop ex g budget nxt state' of
                         (visited, result) \<Rightarrow> (cur # visited, result)))))"

text \<open>
  Modelled from the spec: the call of the engine, which starts the loop at the entry
  point with the recursion limit as the step budget.
\<close>

definition ainvoke ::
  "WorkflowExecutor \<Rightarrow> StateGraph \<Rightarrow> WorkflowState \<Rightarrow> nat \<Rightarrow> string list \<times> (error + WorkflowState)"
where
  "ainvoke ex g state recursion_limit = run_loop ex g recursion_limit (entry_point g) state"

text \<open>
  \<open>run\<close> is an asynchronous generator: a \<open>StopIteration\<close> that escapes its body reaches
  the caller as \<open>RuntimeError\<close>. Its result here is the error raised, or the text whose
  characters it yields one by one; an error comes before the first character, so a
  failed run yields nothing.
\<close>

definition escaping :: "error \<Rightarrow> error" where
  "escaping e = (if e = StopIteration then RuntimeError else e)"

definition initial_state :: "string \<Rightarrow> pyval \<Rightarrow> WorkflowState" where
  "initial_state start_id question =
     \<lparr>node_outputs =
        [(start_id, [(''question'', \<lparr>out_value = question, out_type = ''string''\<rparr>)])],
      current_node = start_id,
      final_output = PStr [],
      condition_result = None\<rparr>"

definition run_traced ::
  "WorkflowExecutor \<Rightarrow> (string \<rightharpoonup> pyval) \<Rightarrow> string list \<times> (error + string)"
where
  "run_traced ex inps =
     (case find (\<lambda>node. node_type node = START) (nodes (workflow ex)) of
        None \<Rightarrow> ([], Inl (escaping StopIteration))
      | Some start_node \<Rightarrow>
          (case inps ''question'' of
             None \<Rightarrow> ([], Inl KeyError)
           | Some question \<Rightarrow>
               (case build ex of
                  Inl e \<Rightarrow> ([], Inl (escaping e))
                | Inr graph \<Rightarrow>
                    (case ainvoke ex graph (initial_state (node_id start_node) question)
                            (length (nodes (workflow ex)) * 2) of
                       (visited, Inl e) \<Rightarrow> (visited, Inl (escaping e))
                     | (visited, Inr final_state) \<Rightarrow>
                         (case final_output final_state of
                            PStr s \<Rightarrow> (visited, Inr s)
                          | other \<Rightarrow> (visited, Inl TypeError))))))"

definition run :: "WorkflowExecutor \<Rightarrow> (string \<rightharpoonup> pyval) \<Rightarrow> error + string" where
  "run ex inps = snd (run_traced ex inps)"



subsection \<open>What the handlers read of a node\<close>

text \<open>
  The reference that the loop of the end handler resolves before its \<open>break\<close>: the
  first one among the input parameters, if there is one.
\<close>

fun first_reference :: "InputParameter list \<Rightarrow> (string \<times> string) option" where
  "first_reference [] = None"
| "first_reference (param # rest) =
     (case val (input param) of
        Ref source_node output_name \<Rightarrow> Some (source_node, output_name)
      | Literal c \<Rightarrow> first_reference rest)"

text \<open>The comparisons of \<open>branches[0]\<close>, the group that the condition handler takes.\<close>

definition first_conditions :: "Node \<Rightarrow> Condition list option" where
  "first_conditions node =
     (case node_branches node of
        [] \<Rightarrow> None
      | branch # later \<Rightarrow> Some (conditions (condition branch)))"

text \<open>
  Two nodes that differ only in what their handler does not read: the input parameters
  of an end node but for its first reference, the groups of a condition node but for
  the comparisons of the first.
\<close>

definition same_read :: "Node \<Rightarrow> Node \<Rightarrow> bool" where
  "same_read n n' =
     (node_id n' = node_id n \<and> node_type n' = node_type n \<and>
      (if node_type n = END
       then first_reference (input_params n') = first_reference (input_params n)
       else if node_type n = CONDITION then first_conditions n' = first_conditions n
       else n' = n))"

subsection \<open>Well-formed graphs\<close>

text \<open>
  Modelled from the spec: what the invariants of the specification speak of, that an
  ID is the ID of a node of the graph, that it is the ID of a condition node, and that
  an edge with a given branch tag leaves a node.
\<close>

definition is_node :: "Workflow \<Rightarrow> string \<Rightarrow> bool" where
  "is_node w i = list_ex (\<lambda>n. node_id n = i) (nodes w)"

definition is_condition_node :: "Workflow \<Rightarrow> string \<Rightarrow> bool" where
  "is_condition_node w i = list_ex (\<lambda>n. node_id n = i \<and> node_type n = CONDITION) (nodes w)"

definition has_port :: "Workflow \<Rightarrow> string \<Rightarrow> string \<Rightarrow> bool" where
  "has_port w i tag = list_ex (\<lambda>e. sourceNodeID e = i \<and> sourcePortID e = tag) (edges w)"

text \<open>
  Modelled from the spec: the invariants that section 3 of the specification puts on a
  graph, with the one of section 4.4 on routing tables. Exactly one node is a start
  node and exactly one an end node; the source and the target of every edge are nodes;
  an edge with a branch tag leaves a condition node; every edge that leaves a condition
  node has a branch tag, and the node has an edge for \<open>"true"\<close> and one for \<open>"false"\<close>.
\<close>

definition well_formed :: "Workflow \<Rightarrow> bool" where
  "well_formed w =
     (length (filter (\<lambda>n. node_type n = START) (nodes w)) = 1 \<and>
      length (filter (\<lambda>n. node_type n = END) (nodes w)) = 1 \<and>
      list_all (\<lambda>e. is_node w (sourceNodeID e) \<and> is_node w (targetNodeID e)) (edges w) \<and>
      list_all (\<lambda>e. sourcePortID e = [] \<or> is_condition_node w (sourceNodeID e)) (edges w) \<and>
      list_all (\<lambda>e. sourcePortID e \<noteq> [] \<or> \<not> is_condition_node w (sourceNodeID e)) (edges w) \<and>
      list_all (\<lambda>n. node_type n \<noteq> CONDITION \<or>
                     (has_port w (node_id n) ''true'' \<and> has_port w (node_id n) ''false''))
        (nodes w))"

section \<open>Example workflows\<close>

definition literal_input :: "string \<Rightarrow> pyval \<Rightarrow> InputParameter" where
  "literal_input n c = \<lparr>input = \<lparr>vtype = ''string'', val = Literal c\<rparr>, pname = n\<rparr>"

definition ref_input :: "string \<Rightarrow> string \<Rightarrow> string \<Rightarrow> InputParameter" where
  "ref_input n source_node output_name =
     \<lparr>input = \<lparr>vtype = ''string'', val = Ref source_node output_name\<rparr>, pname = n\<rparr>"

definition param_node :: "string \<Rightarrow> string \<Rightarrow> InputParameter list \<Rightarrow> Node" where
  "param_node i t ps =
     \<lparr>data = \<lparr>outputs = None,
              inputs = Some \<lparr>inputParameters = Some ps, branches = None\<rparr>\<rparr>,
      node_id = i, node_type = t\<rparr>"

definition branch_node :: "string \<Rightarrow> Branch list \<Rightarrow> Node" where
  "branch_node i bs =
     \<lparr>data = \<lparr>outputs = None,
              inputs = Some \<lparr>inputParameters = None, branches = Some bs\<rparr>\<rparr>,
      node_id = i, node_type = CONDITION\<rparr>"

definition compare_literals :: "pyval \<Rightarrow> int \<Rightarrow> pyval \<Rightarrow> Condition" where
  "compare_literals l op r =
     \<lparr>left = [(''left'', \<lparr>vtype = ''string'', val = Literal l\<rparr>)],
      operator = op,
      right = [(''right'', \<lparr>vtype = ''string'', val = Literal r\<rparr>)]\<rparr>"

definition compare_output :: "string \<Rightarrow> string \<Rightarrow> int \<Rightarrow> pyval \<Rightarrow> Condition" where
  "compare_output source_node output_name op r =
     \<lparr>left = [(''left'', \<lparr>vtype = ''string'', val = Ref source_node output_name\<rparr>)],
      operator = op,
      right = [(''right'', \<lparr>vtype = ''string'', val = Literal r\<rparr>)]\<rparr>"

definition condition_group :: "Condition list \<Rightarrow> Branch" where
  "condition_group cs = \<lparr>condition = \<lparr>conditions = cs, logic = 1\<rparr>\<rparr>"

definition plain_edge :: "string \<Rightarrow> string \<Rightarrow> Edge" where
  "plain_edge s t = \<lparr>sourceNodeID = s, targetNodeID = t, sourcePortID = []\<rparr>"

definition port_edge :: "string \<Rightarrow> string \<Rightarrow> string \<Rightarrow> Edge" where
  "port_edge s port t = \<lparr>sourceNodeID = s, targetNodeID = t, sourcePortID = port\<rparr>"

definition echo_stub :: "string \<Rightarrow> error + string" where
  "echo_stub prompt = Inr prompt"

text \<open>
  A graph object for the examples: it refuses the library's own two names as node
  names, an edge that leaves its exit and an edge that enters its entry.
\<close>

definition library_rules :: GraphRules where
  "library_rules =
     \<lparr>refuses_node = (\<lambda>node_name. node_name = graph_START \<or> node_name = graph_END),
      refuses_edge = (\<lambda>start_key end_key. start_key = graph_END \<or> end_key = graph_START)\<rparr>"

text \<open>
  Start, then a model node with the single literal input \<open>c\<close>, then an end node that
  refers to the model node's \<open>output\<close>.
\<close>

definition echo_workflow :: "string \<Rightarrow> string \<Rightarrow> string \<Rightarrow> pyval \<Rightarrow> Workflow" where
  "echo_workflow s m e c =
     \<lparr>nodes = [param_node s START [],
               param_node m LLM [literal_input ''text'' c],
               param_node e END [ref_input ''result'' m ''output'']],
      edges = [plain_edge s m, plain_edge m e],
      versions = []\<rparr>"

definition echo_executor :: "string \<Rightarrow> string \<Rightarrow> string \<Rightarrow> pyval \<Rightarrow> WorkflowExecutor" where
  "echo_executor s m e c = \<lparr>workflow = echo_workflow s m e c, graph_rules = library_rules,
      chat_model = echo_stub\<rparr>"

text \<open>
  Start, then a condition node with the groups \<open>bs\<close>, whose two ports lead to the end
  node.
\<close>

definition branching_workflow :: "Branch list \<Rightarrow> Workflow" where
  "branching_workflow bs =
     \<lparr>nodes = [param_node ''start'' START [],
               branch_node ''check'' bs,
               param_node ''end'' END [ref_input ''result'' ''start'' ''question'']],
      edges = [plain_edge ''start'' ''check'',
               port_edge ''check'' ''true'' ''end'',
               port_edge ''check'' ''false'' ''end''],
      versions = []\<rparr>"

text \<open>
  Two groups. The first: an unsatisfied comparison, a satisfied one, and one whose
  left operand refers to an output \<open>answer\<close> of the start node, which it never has.
\<close>

definition short_circuit_groups :: "Branch list" where
  "short_circuit_groups =
     [condition_group
        [compare_literals (PStr ''a'') 1 (PStr ''b''),
         compare_literals (PStr ''a'') 1 (PStr ''a''),
         compare_output ''start'' ''answer'' 1 (PStr ''a'')],
      condition_group [compare_literals (PStr ''a'') 1 (PStr ''a'')]]"

definition branching_executor :: "Branch list \<Rightarrow> WorkflowExecutor" where
  "branching_executor bs = \<lparr>workflow = branching_workflow bs, graph_rules = library_rules,
      chat_model = echo_stub\<rparr>"

text \<open>A description with a start node and a model node, and no end node.\<close>

definition no_end_json :: WorkflowJson where
  "no_end_json =
     \<lparr>json_nodes = [param_node ''start'' START [],
                    param_node ''model'' LLM [ref_input ''text'' ''start'' ''question'']],
      json_edges = [plain_edge ''start'' ''model''],
      json_versions = []\<rparr>"

definition no_end_executor :: WorkflowExecutor where
  "no_end_executor =
     \<lparr>workflow = create_workflow_from_json no_end_json, graph_rules = library_rules,
      chat_model = echo_stub\<rparr>"

text \<open>A description without an end node, in which the node ID \<open>x\<close> is repeated.\<close>

definition repeated_id_json :: WorkflowJson where
  "repeated_id_json =
     \<lparr>json_nodes = [param_node ''start'' START [],
                    param_node ''x'' LLM [ref_input ''text'' ''start'' ''question''],
                    param_node ''x'' KB [ref_input ''query'' ''start'' ''question'']],
      json_edges = [plain_edge ''start'' ''x''],
      json_versions = []\<rparr>"

definition repeated_id_executor :: WorkflowExecutor where
  "repeated_id_executor =
     \<lparr>workflow = create_workflow_from_json repeated_id_json, graph_rules = library_rules,
      chat_model = echo_stub\<rparr>"

text \<open>
  A condition node whose only group is the unsatisfied comparison \<open>"a" == "b"\<close>, with
  an edge for each of the two ports.
\<close>

definition two_port_workflow :: Workflow where
  "two_port_workflow =
     \<lparr>nodes = [param_node ''start'' START [],
               branch_node ''check''
                 [condition_group [compare_literals (PStr ''a'') 1 (PStr ''b'')]],
               param_node ''end'' END [ref_input ''result'' ''start'' ''question'']],
      edges = [plain_edge ''start'' ''check'', port_edge ''check'' ''true'' ''end'',
               port_edge ''check'' ''false'' ''end''],
      versions = []\<rparr>"

definition two_port_executor :: WorkflowExecutor where
  "two_port_executor =
     \<lparr>workflow = two_port_workflow, graph_rules = library_rules, chat_model = echo_stub\<rparr>"

text \<open>
  A condition node whose only group is the unsatisfied comparison \<open>"a" == "b"\<close>, and
  whose only outgoing edge is the one of port \<open>"true"\<close>.
\<close>

definition one_port_workflow :: Workflow where
  "one_port_workflow =
     \<lparr>nodes = [param_node ''start'' START [],
               branch_node ''check''
                 [condition_group [compare_literals (PStr ''a'') 1 (PStr ''b'')]],
               param_node ''end'' END [ref_input ''result'' ''start'' ''question'']],
      edges = [plain_edge ''start'' ''check'', port_edge ''check'' ''true'' ''end''],
      versions = []\<rparr>"

definition one_port_executor :: WorkflowExecutor where
  "one_port_executor = \<lparr>workflow = one_port_workflow, graph_rules = library_rules,
      chat_model = echo_stub\<rparr>"

text \<open>
  A loop: start, a model node, then a condition node whose only comparison
  \<open>"a" == "b"\<close> is never satisfied, and whose port \<open>"false"\<close> leads back to the model
  node.
\<close>

definition loop_workflow :: Workflow where
  "loop_workflow =
     \<lparr>nodes = [param_node ''start'' START [],
               param_node ''model'' LLM [ref_input ''text'' ''start'' ''question''],
               branch_node ''check''
                 [condition_group [compare_literals (PStr ''a'') 1 (PStr ''b'')]],
               param_node ''end'' END [ref_input ''result'' ''model'' ''output'']],
      edges = [plain_edge ''start'' ''model'',
               plain_edge ''model'' ''check'',
               port_edge ''check'' ''false'' ''model'',
               port_edge ''check'' ''true'' ''end''],
      versions = []\<rparr>"

definition loop_executor :: WorkflowExecutor where
  "loop_executor = \<lparr>workflow = loop_workflow, graph_rules = library_rules,
      chat_model = echo_stub\<rparr>"

text \<open>The state in which the model node of the loop runs for the second time.\<close>

definition second_visit_state :: WorkflowState where
  "second_visit_state =
     \<lparr>node_outputs =
        [(''start'', [(''question'', \<lparr>out_value = PStr ''hi'', out_type = ''string''\<rparr>)]),
         (''model'', [(''output'', \<lparr>out_value = PStr ''old'', out_type = ''string''\<rparr>)])],
      current_node = ''check'',
      final_output = PStr [],
      condition_result = Some ''false''\<rparr>"

text \<open>
  Start, a knowledge base node that queries with the seed question, and an end node
  that refers to the retrieved \<open>context\<close>.
\<close>

definition kb_workflow :: Workflow where
  "kb_workflow =
     \<lparr>nodes = [param_node ''start'' START [],
               param_node ''kb'' KB [ref_input ''query'' ''start'' ''question''],
               param_node ''end'' END [ref_input ''result'' ''kb'' ''context'']],
      edges = [plain_edge ''start'' ''kb'', plain_edge ''kb'' ''end''],
      versions = []\<rparr>"

definition kb_executor :: WorkflowExecutor where
  "kb_executor = \<lparr>workflow = kb_workflow, graph_rules = library_rules,
      chat_model = echo_stub\<rparr>"

text \<open>Start and an end node whose only input is a literal.\<close>

definition literal_end_workflow :: Workflow where
  "literal_end_workflow =
     \<lparr>nodes = [param_node ''start'' START [],
               param_node ''end'' END [literal_input ''result'' (PStr ''done'')]],
      edges = [plain_edge ''start'' ''end''],
      versions = []\<rparr>"

definition literal_end_executor :: WorkflowExecutor where
  "literal_end_executor = \<lparr>workflow = literal_end_workflow, graph_rules = library_rules,
      chat_model = echo_stub\<rparr>"

text \<open>
  Start and an end node with two reference inputs: the seed question, and an output
  \<open>answer\<close> that the start node never has.
\<close>

definition two_refs_workflow :: Workflow where
  "two_refs_workflow =
     \<lparr>nodes = [param_node ''start'' START [],
               param_node ''end'' END
                 [ref_input ''result'' ''start'' ''question'',
                  ref_input ''other'' ''start'' ''answer'']],
      edges = [plain_edge ''start'' ''end''],
      versions = []\<rparr>"

definition two_refs_executor :: WorkflowExecutor where
  "two_refs_executor = \<lparr>workflow = two_refs_workflow, graph_rules = library_rules,
      chat_model = echo_stub\<rparr>"

text \<open>
  Start, a model node whose input refers to the output \<open>answer\<close> that the start node
  never has, and an end node.
\<close>

definition dangling_workflow :: Workflow where
  "dangling_workflow =
     \<lparr>nodes = [param_node ''start'' START [],
               param_node ''model'' LLM [ref_input ''text'' ''start'' ''answer''],
               param_node ''end'' END [ref_input ''result'' ''model'' ''output'']],
      edges = [plain_edge ''start'' ''model'', plain_edge ''model'' ''end''],
      versions = []\<rparr>"

definition dangling_executor :: WorkflowExecutor where
  "dangling_executor = \<lparr>workflow = dangling_workflow, graph_rules = library_rules,
      chat_model = echo_stub\<rparr>"

text \<open>A ranking of the node IDs of the echo workflow that grows along its edges.\<close>

definition echo_rank :: "string \<Rightarrow> nat" where
  "echo_rank i = (if i = ''start'' then 0 else if i = ''model'' then 1 else 2)"

section \<open>Evaluation rules\<close>

lemmas node_types = START_def END_def LLM_def KB_def CONDITION_def

lemmas fixtures =
  literal_input_def ref_input_def param_node_def branch_node_def compare_literals_def
  compare_output_def
  condition_group_def plain_edge_def port_edge_def echo_stub_def library_rules_def
  graph_START_def graph_END_def

lemmas run_defs =
  run_def run_traced_def build_def create_node_handler_def ainvoke_def wrapped_handler_def
  run_handler_def handle_start_node_def handle_llm_node_def handle_end_node_def
  handle_condition_node_def handle_kb_node_def get_node_by_id_def input_params_def
  node_branches_def successor_def node_output_value_def escaping_def should_continue_def
  initial_state_def

section \<open>The echo round trip\<close>

text \<open>
  C1, counterexample. The graph Start, ModelCall, End of the claim, with a model stub
  that returns its prompt and the seed \<open>{"question": "hi"}\<close>: when the model node's
  single literal input is \<open>"yo"\<close>, the run yields \<open>"yo"\<close>, not \<open>"hi"\<close>.
\<close>

theorem echo_literal_not_seed:
  "run (echo_executor ''start'' ''model'' ''end'' (PStr ''yo'')) [''question'' \<mapsto> PStr ''hi'']
     = Inr ''yo''"
  by (simp add: echo_executor_def echo_workflow_def fixtures node_types run_defs
      numeral_2_eq_2 numeral_3_eq_3)

text \<open>
  C1, as amended. For the graph Start, ModelCall, End with three different node IDs,
  where the model node has the single literal text input \<open>c\<close>, the end node refers to the
  model node's \<open>output\<close>, and the model stub returns its prompt: for every seed question
  the run yields exactly the characters of \<open>c\<close> and then ends. The seed is not read.
  This holds for every graph object that refuses none of the three node names and none
  of the edges of this graph; when it refuses one of them, the run raises \<open>ValueError\<close>
  in \<open>build\<close>.
\<close>

theorem echo_yields_literal:
  assumes "workflow ex = echo_workflow s m e (PStr c)"
      and "chat_model ex = echo_stub"
      and "s \<noteq> m" and "m \<noteq> e" and "s \<noteq> e"
  shows "run ex [''question'' \<mapsto> q] =
           (if refuses_node (graph_rules ex) s \<or> refuses_node (graph_rules ex) m \<or>
               refuses_node (graph_rules ex) e \<or>
               refuses_edge (graph_rules ex) s m \<or> refuses_edge (graph_rules ex) m e \<or>
               refuses_edge (graph_rules ex) graph_START s \<or>
               refuses_edge (graph_rules ex) e graph_END
            then Inl ValueError else Inr c)"
proof -
  have n: "add_nodes (graph_rules ex) (nodes (workflow ex)) [] =
      (if refuses_node (graph_rules ex) s \<or> refuses_node (graph_rules ex) m \<or>
          refuses_node (graph_rules ex) e
       then Inl ValueError
       else Inr [(s, HandleStart), (m, HandleLLM), (e, HandleEnd)])"
    using assms
    by (simp add: echo_workflow_def param_node_def node_types create_node_handler_def)
  have d: "add_edges (graph_rules ex) (edges (workflow ex)) [] =
      (if refuses_edge (graph_rules ex) s m \<or> refuses_edge (graph_rules ex) m e
       then Inl ValueError
       else Inr [(s, m), (m, e)])"
    using assms by (simp add: echo_workflow_def plain_edge_def)
  have f: "find (\<lambda>node. node_type node = START) (nodes (workflow ex))
             = Some (param_node s START [])"
          "find (\<lambda>node. node_type node = END) (nodes (workflow ex))
             = Some (param_node e END [ref_input ''result'' m ''output''])"
    using assms by (simp_all add: echo_workflow_def param_node_def node_types)
  have c: "collect_condition_edges (edges (workflow ex)) [] = []"
    using assms by (simp add: echo_workflow_def plain_edge_def)
  have b: "build ex =
      (if refuses_node (graph_rules ex) s \<or> refuses_node (graph_rules ex) m \<or>
          refuses_node (graph_rules ex) e \<or>
          refuses_edge (graph_rules ex) s m \<or> refuses_edge (graph_rules ex) m e \<or>
          refuses_edge (graph_rules ex) graph_START s \<or>
          refuses_edge (graph_rules ex) e graph_END
       then Inl ValueError
       else Inr \<lparr>graph_nodes = [(s, HandleStart), (m, HandleLLM), (e, HandleEnd)],
                 condition_edges = [],
                 plain_edges = [(s, m), (m, e)],
                 entry_point = s,
                 finish_point = e\<rparr>)"
    by (simp add: build_def n d f c param_node_def)
  have l: "run_loop ex
             \<lparr>graph_nodes = [(s, HandleStart), (m, HandleLLM), (e, HandleEnd)],
              condition_edges = [], plain_edges = [(s, m), (m, e)],
              entry_point = s, finish_point = e\<rparr>
             (Suc (Suc (Suc (Suc (Suc (Suc 0)))))) s (initial_state s q)
           = ([s, m, e],
              Inr \<lparr>node_outputs =
                     [(s, [(''question'', \<lparr>out_value = q, out_type = ''string''\<rparr>)]),
                      (m, [(''output'', \<lparr>out_value = PStr c, out_type = ''string''\<rparr>)])],
                   current_node = e,
                   final_output = PStr c,
                   condition_result = None\<rparr>)"
    using assms
    by (simp add: echo_workflow_def fixtures node_types wrapped_handler_def run_handler_def
        handle_start_node_def handle_llm_node_def handle_end_node_def get_node_by_id_def
        input_params_def successor_def node_output_value_def initial_state_def)
  have k: "length (nodes (workflow ex)) * 2 = Suc (Suc (Suc (Suc (Suc (Suc 0)))))"
    using assms by (simp add: echo_workflow_def)
  show ?thesis
    by (simp add: run_def run_traced_def f b ainvoke_def k l escaping_def param_node_def
        del: run_loop.simps)
qed

text \<open>The instance of the claim: the literal is \<open>"hi"\<close>, and the stream is \<open>h\<close>, \<open>i\<close>.\<close>

theorem echo_yields_literal_witness:
  "''start'' \<noteq> ''model'' \<and> ''model'' \<noteq> ''end'' \<and> ''start'' \<noteq> ''end'' \<and>
   run (echo_executor ''start'' ''model'' ''end'' (PStr ''hi'')) [''question'' \<mapsto> PStr ''hi'']
     = Inr [CHR ''h'', CHR ''i'']"
proof -
  let ?ex = "echo_executor ''start'' ''model'' ''end'' (PStr ''hi'')"
  have w: "workflow ?ex = echo_workflow ''start'' ''model'' ''end'' (PStr ''hi'')"
    by (simp add: echo_executor_def)
  have c: "chat_model ?ex = echo_stub"
    by (simp add: echo_executor_def)
  have r: "graph_rules ?ex = library_rules"
    by (simp add: echo_executor_def)
  from echo_yields_literal [OF w c, of "PStr ''hi''"]
  show ?thesis
    by (simp add: r library_rules_def graph_START_def graph_END_def)
qed

section \<open>The condition node\<close>

lemma eval_conditions_all_false:
  "(\<forall>c\<in>set cs. eval_condition state c = Inr False) \<Longrightarrow>
     eval_conditions state cs = Inr (state\<lparr>condition_result := Some ''false''\<rparr>)"
  by (induction cs) auto

lemma eval_conditions_tag:
  "eval_conditions state cs = Inr state' \<Longrightarrow>
     (condition_result state' = Some ''true'' \<and>
        (\<exists>c\<in>set cs. eval_condition state c = Inr True)) \<or>
     (condition_result state' = Some ''false'' \<and>
        (\<forall>c\<in>set cs. eval_condition state c = Inr False))"
  by (induction cs) (auto split: sum.splits if_splits)

lemma eval_conditions_satisfied:
  "\<forall>c'\<in>set pre. eval_condition state c' = Inr False \<Longrightarrow> eval_condition state c = Inr True \<Longrightarrow>
     eval_conditions state (pre @ c # post) = Inr (state\<lparr>condition_result := Some ''true''\<rparr>)"
  by (induction pre) auto

lemma eval_conditions_error:
  "\<forall>c'\<in>set pre. eval_condition state c' = Inr False \<Longrightarrow> eval_condition state c = Inl e \<Longrightarrow>
     eval_conditions state (pre @ c # post) = Inl e"
  by (induction pre) auto

text \<open>
  C2, counterexample. A condition node with no condition groups: the handler sets the
  routing tag to \<open>"true"\<close>, where the claim says \<open>"false"\<close>.
\<close>

theorem no_groups_tag_true:
  "wrapped_handler (branching_executor []) ''check'' HandleCondition
     (initial_state ''start'' (PStr ''hi''))
   = Inr ((initial_state ''start'' (PStr ''hi''))
            \<lparr>current_node := ''check'', condition_result := Some ''true''\<rparr>)"
  by (simp add: branching_executor_def branching_workflow_def fixtures node_types run_defs)

text \<open>
  C2, as amended. For a condition node with no condition groups the handler sets the
  routing tag to \<open>"true"\<close>. For a node with groups, the first group decides: when each of
  its comparisons evaluates to unsatisfied the tag is \<open>"false"\<close>; and whenever the handler
  returns, the tag is \<open>"true"\<close> or \<open>"false"\<close>, and it is \<open>"true"\<close> exactly when a comparison
  of the first group is satisfied.
\<close>

theorem condition_tag_first_group:
  assumes "get_node_by_id (workflow ex) (current_node state) = Some node"
  shows "(node_branches node = [] \<longrightarrow>
            handle_condition_node ex state = Inr (state\<lparr>condition_result := Some ''true''\<rparr>)) \<and>
         (\<forall>b bs. node_branches node = b # bs \<longrightarrow>
            ((\<forall>c\<in>set (conditions (condition b)). eval_condition state c = Inr False) \<longrightarrow>
               handle_condition_node ex state
                 = Inr (state\<lparr>condition_result := Some ''false''\<rparr>)) \<and>
            (\<forall>state'. handle_condition_node ex state = Inr state' \<longrightarrow>
               (condition_result state' = Some ''true'' \<or>
                condition_result state' = Some ''false'') \<and>
               (condition_result state' = Some ''true'' \<longleftrightarrow>
                  (\<exists>c\<in>set (conditions (condition b)). eval_condition state c = Inr True))))"
proof (intro conjI allI impI)
  assume "node_branches node = []"
  with assms
  show "handle_condition_node ex state = Inr (state\<lparr>condition_result := Some ''true''\<rparr>)"
    by (simp add: handle_condition_node_def)
next
  fix b bs
  assume b: "node_branches node = b # bs"
  have h: "handle_condition_node ex state = eval_conditions state (conditions (condition b))"
    using assms b by (simp add: handle_condition_node_def)
  {
    assume "\<forall>c\<in>set (conditions (condition b)). eval_condition state c = Inr False"
    then show "handle_condition_node ex state
                 = Inr (state\<lparr>condition_result := Some ''false''\<rparr>)"
      by (simp add: h eval_conditions_all_false)
  }
  {
    fix state'
    assume "handle_condition_node ex state = Inr state'"
    then have e: "eval_conditions state (conditions (condition b)) = Inr state'"
      by (simp add: h)
    from eval_conditions_tag [OF e]
    show "condition_result state' = Some ''true'' \<or> condition_result state' = Some ''false''"
      by blast
    from eval_conditions_tag [OF e]
    show "condition_result state' = Some ''true'' \<longleftrightarrow>
            (\<exists>c\<in>set (conditions (condition b)). eval_condition state c = Inr True)"
      by auto
  }
qed

text \<open>
  At a node whose only group holds the unsatisfied comparison \<open>"a" == "b"\<close>: the tag is
  \<open>"false"\<close>.
\<close>

theorem condition_tag_first_group_witness:
  "get_node_by_id
     (workflow (branching_executor [condition_group [compare_literals (PStr ''a'') 1 (PStr ''b'')]]))
     ''check''
   = Some (branch_node ''check'' [condition_group [compare_literals (PStr ''a'') 1 (PStr ''b'')]]) \<and>
   map (eval_condition ((initial_state ''start'' (PStr ''hi''))\<lparr>current_node := ''check''\<rparr>))
     [compare_literals (PStr ''a'') 1 (PStr ''b'')] = [Inr False] \<and>
   handle_condition_node
     (branching_executor [condition_group [compare_literals (PStr ''a'') 1 (PStr ''b'')]])
     ((initial_state ''start'' (PStr ''hi''))\<lparr>current_node := ''check''\<rparr>)
   = Inr ((initial_state ''start'' (PStr ''hi''))
            \<lparr>current_node := ''check'', condition_result := Some ''false''\<rparr>)"
proof -
  let ?c = "compare_literals (PStr ''a'') 1 (PStr ''b'')"
  let ?ex = "branching_executor [condition_group [?c]]"
  let ?st = "(initial_state ''start'' (PStr ''hi''))\<lparr>current_node := ''check''\<rparr>"
  have n: "get_node_by_id (workflow ?ex) (current_node ?st)
             = Some (branch_node ''check'' [condition_group [?c]])"
    by (simp add: branching_executor_def branching_workflow_def fixtures node_types
        get_node_by_id_def initial_state_def)
  have b: "node_branches (branch_node ''check'' [condition_group [?c]]) = [condition_group [?c]]"
    by (simp add: node_branches_def branch_node_def)
  have e: "eval_condition ?st ?c = Inr False"
    by (simp add: eval_condition_def compare_values_def compare_literals_def)
  have a: "\<forall>c\<in>set (conditions (condition (condition_group [?c]))). eval_condition ?st c = Inr False"
    using e by (simp add: condition_group_def)
  from condition_tag_first_group [OF n] b a
  have "handle_condition_node ?ex ?st = Inr (?st\<lparr>condition_result := Some ''false''\<rparr>)"
    by blast
  with n e show ?thesis
    by (simp add: initial_state_def)
qed

text \<open>
  C3, counterexample. Two groups, the first with the unsatisfied comparison
  \<open>"a" == "b"\<close>, the second with the satisfied comparison \<open>"a" == "a"\<close>: the tag is
  \<open>"false"\<close>, where the claim says \<open>"true"\<close>.
\<close>

theorem second_group_not_evaluated:
  "wrapped_handler
     (branching_executor
        [condition_group [compare_literals (PStr ''a'') 1 (PStr ''b'')],
         condition_group [compare_literals (PStr ''a'') 1 (PStr ''a'')]])
     ''check'' HandleCondition (initial_state ''start'' (PStr ''hi''))
   = Inr ((initial_state ''start'' (PStr ''hi''))
            \<lparr>current_node := ''check'', condition_result := Some ''false''\<rparr>)"
  by (simp add: branching_executor_def branching_workflow_def fixtures node_types run_defs
      eval_condition_def compare_values_def)

text \<open>
  C3, as amended. For a condition node with one or more groups, the handler evaluates
  the comparisons of the first group only, in order, and stops at the first satisfied
  one: when the comparisons before a satisfied one are unsatisfied, the tag is \<open>"true"\<close>,
  whatever comes after it in the group; when they are unsatisfied and the next one
  raises, the handler raises that error; when every comparison of the first group is
  unsatisfied, the tag is \<open>"false"\<close>. The groups after the first are never evaluated:
  none of this depends on them, and the tag is \<open>"false"\<close> also when the first group is
  unsatisfied and a later group holds a satisfied comparison.
\<close>

theorem first_group_decides:
  assumes "get_node_by_id (workflow ex) (current_node state) = Some node"
      and "node_branches node = first_group # later"
  shows "(\<forall>pre c post.
            conditions (condition first_group) = pre @ c # post \<longrightarrow>
            (\<forall>c'\<in>set pre. eval_condition state c' = Inr False) \<longrightarrow>
            (eval_condition state c = Inr True \<longrightarrow>
               handle_condition_node ex state
                 = Inr (state\<lparr>condition_result := Some ''true''\<rparr>)) \<and>
            (\<forall>e. eval_condition state c = Inl e \<longrightarrow> handle_condition_node ex state = Inl e)) \<and>
         ((\<forall>c\<in>set (conditions (condition first_group)). eval_condition state c = Inr False) \<longrightarrow>
            handle_condition_node ex state
              = Inr (state\<lparr>condition_result := Some ''false''\<rparr>)) \<and>
         ((\<forall>c\<in>set (conditions (condition first_group)). eval_condition state c = Inr False) \<and>
          (\<exists>g\<in>set later. \<exists>c\<in>set (conditions (condition g)). eval_condition state c = Inr True) \<longrightarrow>
            handle_condition_node ex state
              = Inr (state\<lparr>condition_result := Some ''false''\<rparr>))"
proof -
  have h: "handle_condition_node ex state
             = eval_conditions state (conditions (condition first_group))"
    using assms by (simp add: handle_condition_node_def)
  have t: "\<And>pre c post.
             conditions (condition first_group) = pre @ c # post \<Longrightarrow>
             \<forall>c'\<in>set pre. eval_condition state c' = Inr False \<Longrightarrow>
             eval_condition state c = Inr True \<Longrightarrow>
             handle_condition_node ex state = Inr (state\<lparr>condition_result := Some ''true''\<rparr>)"
    by (simp add: h eval_conditions_satisfied)
  have e: "\<And>pre c post e.
             conditions (condition first_group) = pre @ c # post \<Longrightarrow>
             \<forall>c'\<in>set pre. eval_condition state c' = Inr False \<Longrightarrow>
             eval_condition state c = Inl e \<Longrightarrow>
             handle_condition_node ex state = Inl e"
    by (simp add: h eval_conditions_error)
  have f: "\<forall>c\<in>set (conditions (condition first_group)). eval_condition state c = Inr False \<Longrightarrow>
             handle_condition_node ex state = Inr (state\<lparr>condition_result := Some ''false''\<rparr>)"
    by (simp add: h eval_conditions_all_false)
  from t e f show ?thesis
    by blast
qed

text \<open>
  A node with two groups. In the first, \<open>"a" == "b"\<close> is unsatisfied, \<open>"a" == "a"\<close> is
  satisfied, and the third comparison reads an output \<open>answer\<close> that the store does not
  hold, so evaluating it would raise: the tag is \<open>"true"\<close>.
\<close>

theorem first_group_decides_witness:
  "get_node_by_id (workflow (branching_executor short_circuit_groups)) ''check''
     = Some (branch_node ''check'' short_circuit_groups) \<and>
   map (eval_condition ((initial_state ''start'' (PStr ''hi''))\<lparr>current_node := ''check''\<rparr>))
     [compare_literals (PStr ''a'') 1 (PStr ''b''),
      compare_literals (PStr ''a'') 1 (PStr ''a''),
      compare_output ''start'' ''answer'' 1 (PStr ''a'')]
     = [Inr False, Inr True, Inl KeyError] \<and>
   handle_condition_node (branching_executor short_circuit_groups)
     ((initial_state ''start'' (PStr ''hi''))\<lparr>current_node := ''check''\<rparr>)
   = Inr ((initial_state ''start'' (PStr ''hi''))
            \<lparr>current_node := ''check'', condition_result := Some ''true''\<rparr>)"
proof -
  let ?c1 = "compare_literals (PStr ''a'') 1 (PStr ''b'')"
  let ?c2 = "compare_literals (PStr ''a'') 1 (PStr ''a'')"
  let ?c3 = "compare_output ''start'' ''answer'' 1 (PStr ''a'')"
  let ?later = "[condition_group [compare_literals (PStr ''a'') 1 (PStr ''a'')]]"
  let ?ex = "branching_executor short_circuit_groups"
  let ?st = "(initial_state ''start'' (PStr ''hi''))\<lparr>current_node := ''check''\<rparr>"
  have n: "get_node_by_id (workflow ?ex) (current_node ?st)
             = Some (branch_node ''check'' short_circuit_groups)"
    by (simp add: branching_executor_def branching_workflow_def fixtures node_types
        get_node_by_id_def initial_state_def)
  have b: "node_branches (branch_node ''check'' short_circuit_groups)
             = condition_group [?c1, ?c2, ?c3] # ?later"
    by (simp add: node_branches_def branch_node_def short_circuit_groups_def)
  have s: "conditions (condition (condition_group [?c1, ?c2, ?c3])) = [?c1] @ ?c2 # [?c3]"
    by (simp add: condition_group_def)
  have e1: "eval_condition ?st ?c1 = Inr False"
    by (simp add: eval_condition_def compare_values_def compare_literals_def)
  have e2: "eval_condition ?st ?c2 = Inr True"
    by (simp add: eval_condition_def compare_values_def compare_literals_def)
  have e3: "eval_condition ?st ?c3 = Inl KeyError"
    by (simp add: eval_condition_def compare_output_def node_output_value_def
        initial_state_def)
  have p: "\<forall>c'\<in>set [?c1]. eval_condition ?st c' = Inr False"
    using e1 by simp
  note u = first_group_decides [OF n b, THEN conjunct1, THEN spec, THEN spec, THEN spec,
      THEN mp, OF s, THEN mp, OF p]
  from u [THEN conjunct1, THEN mp, OF e2]
  have "handle_condition_node ?ex ?st = Inr (?st\<lparr>condition_result := Some ''true''\<rparr>)" .
  with n e1 e2 e3 show ?thesis
    by (simp add: initial_state_def)
qed

section \<open>Building: start and end nodes, routing tags\<close>

lemma validate_loop_iff:
  "validate_loop ns a b \<longleftrightarrow>
     (a \<or> (\<exists>n\<in>set ns. node_type n = START)) \<and> (b \<or> (\<exists>n\<in>set ns. node_type n = END))"
  by (induction ns arbitrary: a b) (auto simp: node_types)

lemma validate_iff:
  "validate w \<longleftrightarrow>
     (\<exists>n\<in>set (nodes w). node_type n = START) \<and> (\<exists>n\<in>set (nodes w). node_type n = END)"
  by (simp add: validate_def validate_loop_iff)

lemma create_node_handler_supported:
  "supported t \<longleftrightarrow> (\<exists>h. create_node_handler t = Inr h)"
  by (auto simp: supported_def create_node_handler_def)

lemma create_node_handler_error: "create_node_handler t = Inl e \<Longrightarrow> e = ValueError"
  by (auto simp: create_node_handler_def split: if_splits)

lemma add_nodes_error: "add_nodes rules ns g = Inl e \<Longrightarrow> e = ValueError"
  by (induction ns arbitrary: g)
    (auto split: sum.splits if_splits dest: create_node_handler_error)

lemma add_nodes_accepted:
  "(\<exists>r. add_nodes rules ns g = Inr r) \<longleftrightarrow>
     (\<forall>n\<in>set ns. supported (node_type n) \<and> \<not> refuses_node rules (node_id n) \<and>
                  map_of g (node_id n) = None) \<and>
     distinct (map node_id ns)"
proof (induction ns arbitrary: g)
  case Nil
  show ?case by simp
next
  case (Cons n ns)
  show ?case
  proof (cases "create_node_handler (node_type n)")
    case (Inl e)
    then have "\<not> supported (node_type n)"
      by (simp add: create_node_handler_supported)
    with Inl show ?thesis by simp
  next
    case (Inr h)
    then have s: "supported (node_type n)"
      by (auto simp: create_node_handler_supported)
    show ?thesis
    proof (cases "map_of g (node_id n) \<noteq> None \<or> refuses_node rules (node_id n)")
      case True
      with Inr show ?thesis by auto
    next
      case False
      have "(\<exists>r. add_nodes rules (n # ns) g = Inr r) \<longleftrightarrow>
            (\<exists>r. add_nodes rules ns (AList.update (node_id n) h g) = Inr r)"
        using Inr False by simp
      also have "\<dots> \<longleftrightarrow>
            (\<forall>n'\<in>set ns. supported (node_type n') \<and> \<not> refuses_node rules (node_id n') \<and>
                          map_of (AList.update (node_id n) h g) (node_id n') = None) \<and>
            distinct (map node_id ns)"
        by (rule Cons.IH)
      also have "\<dots> \<longleftrightarrow>
            (\<forall>n'\<in>set (n # ns). supported (node_type n') \<and> \<not> refuses_node rules (node_id n') \<and>
                          map_of g (node_id n') = None) \<and>
            distinct (map node_id (n # ns))"
      proof
        assume l: "(\<forall>n'\<in>set ns. supported (node_type n') \<and> \<not> refuses_node rules (node_id n') \<and>
                      map_of (AList.update (node_id n) h g) (node_id n') = None) \<and>
                   distinct (map node_id ns)"
        then have "\<forall>n'\<in>set ns. node_id n' \<noteq> node_id n \<and> map_of g (node_id n') = None"
          by (auto simp: update_conv' split: if_splits)
        then have "node_id n \<notin> node_id ` set ns"
            and "\<forall>n'\<in>set ns. map_of g (node_id n') = None"
          by auto
        with l False s
        show "(\<forall>n'\<in>set (n # ns). supported (node_type n') \<and>
                 \<not> refuses_node rules (node_id n') \<and> map_of g (node_id n') = None) \<and>
              distinct (map node_id (n # ns))"
          by simp
      next
        assume r: "(\<forall>n'\<in>set (n # ns). supported (node_type n') \<and>
                      \<not> refuses_node rules (node_id n') \<and> map_of g (node_id n') = None) \<and>
                   distinct (map node_id (n # ns))"
        then have "node_id n \<notin> node_id ` set ns"
          by simp
        then have "\<forall>n'\<in>set ns. node_id n' \<noteq> node_id n"
          by (metis image_eqI)
        with r
        show "(\<forall>n'\<in>set ns. supported (node_type n') \<and> \<not> refuses_node rules (node_id n') \<and>
                 map_of (AList.update (node_id n) h g) (node_id n') = None) \<and>
              distinct (map node_id ns)"
          by (simp add: update_conv')
      qed
      finally show ?thesis .
    qed
  qed
qed

lemma add_edges_error: "add_edges rules es acc = Inl e \<Longrightarrow> e = ValueError"
  by (induction es arbitrary: acc) (auto split: if_splits)

lemma add_edges_accepted:
  "(\<exists>r. add_edges rules es acc = Inr r) \<longleftrightarrow>
     (\<forall>e\<in>set es. sourcePortID e = [] \<longrightarrow>
        \<not> refuses_edge rules (sourceNodeID e) (targetNodeID e))"
  by (induction es arbitrary: acc) auto

lemma add_edges_result:
  "add_edges rules es acc = Inr r \<Longrightarrow>
     r = acc @ map (\<lambda>edge. (sourceNodeID edge, targetNodeID edge))
                 (filter (\<lambda>edge. sourcePortID edge = []) es)"
proof (induction es arbitrary: acc)
  case Nil
  then show ?case by simp
next
  case (Cons a es)
  from Cons.prems Cons.IH [of "acc @ [(sourceNodeID a, targetNodeID a)]"] Cons.IH [of acc]
  show ?case
    by (auto split: if_splits)
qed

lemma add_edges_ports:
  "add_edges rules (filter (\<lambda>e. sourcePortID e = [] \<or> keep e) es) acc = add_edges rules es acc"
  by (induction es arbitrary: acc) auto

lemma build_error: "build ex = Inl e \<Longrightarrow> e = ValueError \<or> e = StopIteration"
  by (auto simp: build_def split: sum.splits option.splits if_splits
      dest: add_nodes_error add_edges_error)

lemma build_refused:
  assumes "\<not> (nodes_accepted (graph_rules ex) (nodes (workflow ex)) \<and>
              edges_accepted (graph_rules ex) (edges (workflow ex)))"
  shows "build ex = Inl ValueError"
proof (cases "add_nodes (graph_rules ex) (nodes (workflow ex)) []")
  case (Inl e)
  with add_nodes_error [OF Inl] show ?thesis
    by (simp add: build_def)
next
  case (Inr r)
  then have "nodes_accepted (graph_rules ex) (nodes (workflow ex))"
    using add_nodes_accepted [of "graph_rules ex" "nodes (workflow ex)" "[]"]
    by (auto simp: nodes_accepted_def)
  with assms have "\<not> edges_accepted (graph_rules ex) (edges (workflow ex))"
    by simp
  then have "\<not> (\<exists>p. add_edges (graph_rules ex) (edges (workflow ex)) [] = Inr p)"
    by (simp add: add_edges_accepted edges_accepted_def)
  then obtain e where e: "add_edges (graph_rules ex) (edges (workflow ex)) [] = Inl e"
    by (cases "add_edges (graph_rules ex) (edges (workflow ex)) []") auto
  with add_edges_error [OF e] Inr show ?thesis
    by (simp add: build_def)
qed

lemma build_accepted:
  assumes "nodes_accepted (graph_rules ex) (nodes (workflow ex))"
      and "edges_accepted (graph_rules ex) (edges (workflow ex))"
  obtains registered where
    "add_nodes (graph_rules ex) (nodes (workflow ex)) [] = Inr registered"
    "add_edges (graph_rules ex) (edges (workflow ex)) []
       = Inr (map (\<lambda>edge. (sourceNodeID edge, targetNodeID edge))
               (filter (\<lambda>edge. sourcePortID edge = []) (edges (workflow ex))))"
proof -
  from assms(1) obtain registered where
    r: "add_nodes (graph_rules ex) (nodes (workflow ex)) [] = Inr registered"
    using add_nodes_accepted [of "graph_rules ex" "nodes (workflow ex)" "[]"]
    by (auto simp: nodes_accepted_def)
  from assms(2) obtain plain where
    p: "add_edges (graph_rules ex) (edges (workflow ex)) [] = Inr plain"
    using add_edges_accepted [of "graph_rules ex" "edges (workflow ex)" "[]"]
    by (auto simp: edges_accepted_def)
  from add_edges_result [OF p] p r that show ?thesis
    by simp
qed

text \<open>
  C4, counterexample. A description with a start node and a model node but no end
  node: construction returns a workflow, which \<open>validate\<close> only reports as invalid;
  \<open>build\<close> raises \<open>StopIteration\<close>, not a structural error, and it is \<open>run\<close> that
  calls \<open>build\<close>: the caller of \<open>run\<close> gets \<open>RuntimeError\<close>.
\<close>

theorem no_end_node_fails_in_run:
  "nodes (create_workflow_from_json no_end_json) = json_nodes no_end_json \<and>
   validate (create_workflow_from_json no_end_json) = False \<and>
   build no_end_executor = Inl StopIteration \<and>
   run_traced no_end_executor [''question'' \<mapsto> PStr ''hi''] = ([], Inl RuntimeError)"
  by (simp add: no_end_executor_def no_end_json_def create_workflow_from_json_def validate_def
      fixtures node_types run_defs)

text \<open>
  C4, as amended. For every graph description that lacks a start node or lacks an end
  node, construction succeeds without a check and \<open>validate\<close> returns false. The failure
  comes when \<open>run\<close> is called, before any node handler is invoked: \<open>RuntimeError\<close> (from
  \<open>StopIteration\<close>) for the missing node, unless the seed has no \<open>question\<close>
  (\<open>KeyError\<close>), or the graph object refuses a node or an edge (an unsupported node type,
  a repeated node ID, a name or an edge that the library refuses: \<open>ValueError\<close>) and that
  is met first. \<open>build\<close> itself fails with \<open>ValueError\<close> when a node or an edge is
  refused, and otherwise with \<open>StopIteration\<close>.
\<close>

theorem missing_start_or_end:
  assumes "(\<forall>n\<in>set (json_nodes j). node_type n \<noteq> START) \<or>
           (\<forall>n\<in>set (json_nodes j). node_type n \<noteq> END)"
      and "workflow ex = create_workflow_from_json j"
  shows "nodes (workflow ex) = json_nodes j \<and>
         \<not> validate (workflow ex) \<and>
         build ex =
           Inl (if nodes_accepted (graph_rules ex) (json_nodes j) \<and>
                   edges_accepted (graph_rules ex) (json_edges j)
                then StopIteration else ValueError) \<and>
         run_traced ex inps =
           ([], Inl (if \<forall>n\<in>set (json_nodes j). node_type n \<noteq> START then RuntimeError
                     else if inps ''question'' = None then KeyError
                     else if nodes_accepted (graph_rules ex) (json_nodes j) \<and>
                             edges_accepted (graph_rules ex) (json_edges j)
                     then RuntimeError
                     else ValueError))"
proof -
  have w: "nodes (workflow ex) = json_nodes j" "edges (workflow ex) = json_edges j"
    using assms(2) by (simp_all add: create_workflow_from_json_def)
  have v: "\<not> validate (workflow ex)"
    using assms(1) by (auto simp: validate_iff w)
  have b: "build ex =
      Inl (if nodes_accepted (graph_rules ex) (json_nodes j) \<and>
              edges_accepted (graph_rules ex) (json_edges j)
           then StopIteration else ValueError)"
  proof (cases "nodes_accepted (graph_rules ex) (json_nodes j) \<and>
                edges_accepted (graph_rules ex) (json_edges j)")
    case False
    with build_refused [of ex] show ?thesis
      by (simp add: w)
  next
    case True
    then obtain registered where
      r: "add_nodes (graph_rules ex) (nodes (workflow ex)) [] = Inr registered" and
      p: "add_edges (graph_rules ex) (edges (workflow ex)) []
            = Inr (map (\<lambda>edge. (sourceNodeID edge, targetNodeID edge))
                    (filter (\<lambda>edge. sourcePortID edge = []) (edges (workflow ex))))"
      using build_accepted [of ex] by (auto simp: w)
    from assms(1)
    have "find (\<lambda>node. node_type node = START) (json_nodes j) = None \<or>
          find (\<lambda>node. node_type node = END) (json_nodes j) = None"
      by (auto simp: find_None_iff)
    with True r p show ?thesis
      by (auto simp: build_def w split: option.splits)
  qed
  have r: "run_traced ex inps =
      ([], Inl (if \<forall>n\<in>set (json_nodes j). node_type n \<noteq> START then RuntimeError
                else if inps ''question'' = None then KeyError
                else if nodes_accepted (graph_rules ex) (json_nodes j) \<and>
                        edges_accepted (graph_rules ex) (json_edges j)
                then RuntimeError
                else ValueError))"
  proof (cases "find (\<lambda>node. node_type node = START) (json_nodes j)")
    case None
    then have "\<forall>n\<in>set (json_nodes j). node_type n \<noteq> START"
      by (auto simp: find_None_iff)
    with None show ?thesis
      by (simp add: run_traced_def w escaping_def)
  next
    case (Some start_node)
    then have "\<not> (\<forall>n\<in>set (json_nodes j). node_type n \<noteq> START)"
      by (auto simp: find_Some_iff)
    with Some b show ?thesis
      by (auto simp: run_traced_def w escaping_def split: option.splits)
  qed
  from w(1) v b r show ?thesis by blast
qed

text \<open>
  Two descriptions without an end node. In the first, all nodes and edges are
  accepted: \<open>build\<close> raises \<open>StopIteration\<close>, and the caller of \<open>run\<close> gets
  \<open>RuntimeError\<close>. In the second, the node ID \<open>x\<close> is repeated: \<open>ValueError\<close>.
\<close>

theorem missing_start_or_end_witness:
  "list_all (\<lambda>n. node_type n \<noteq> END) (json_nodes no_end_json) \<and>
   \<not> validate (workflow no_end_executor) \<and>
   build no_end_executor = Inl StopIteration \<and>
   run_traced no_end_executor [''question'' \<mapsto> PStr ''hi''] = ([], Inl RuntimeError) \<and>
   list_all (\<lambda>n. node_type n \<noteq> END) (json_nodes repeated_id_json) \<and>
   build repeated_id_executor = Inl ValueError \<and>
   run_traced repeated_id_executor [''question'' \<mapsto> PStr ''hi''] = ([], Inl ValueError)"
proof -
  have a: "(\<forall>n\<in>set (json_nodes no_end_json). node_type n \<noteq> START) \<or>
           (\<forall>n\<in>set (json_nodes no_end_json). node_type n \<noteq> END)"
    by (simp add: no_end_json_def fixtures node_types)
  have w: "workflow no_end_executor = create_workflow_from_json no_end_json"
    by (simp add: no_end_executor_def)
  have g: "graph_rules no_end_executor = library_rules"
    by (simp add: no_end_executor_def)
  have a': "(\<forall>n\<in>set (json_nodes repeated_id_json). node_type n \<noteq> START) \<or>
            (\<forall>n\<in>set (json_nodes repeated_id_json). node_type n \<noteq> END)"
    by (simp add: repeated_id_json_def fixtures node_types)
  have w': "workflow repeated_id_executor = create_workflow_from_json repeated_id_json"
    by (simp add: repeated_id_executor_def)
  have g': "graph_rules repeated_id_executor = library_rules"
    by (simp add: repeated_id_executor_def)
  from missing_start_or_end [OF a w, of "[''question'' \<mapsto> PStr ''hi'']"]
  have 1: "\<not> validate (workflow no_end_executor) \<and>
           build no_end_executor = Inl StopIteration \<and>
           run_traced no_end_executor [''question'' \<mapsto> PStr ''hi''] = ([], Inl RuntimeError)"
    by (simp add: g no_end_json_def fixtures node_types supported_def nodes_accepted_def
        edges_accepted_def)
  from missing_start_or_end [OF a' w', of "[''question'' \<mapsto> PStr ''hi'']"]
  have 2: "build repeated_id_executor = Inl ValueError \<and>
           run_traced repeated_id_executor [''question'' \<mapsto> PStr ''hi''] = ([], Inl ValueError)"
    by (simp add: g' repeated_id_json_def fixtures node_types supported_def nodes_accepted_def
        edges_accepted_def)
  have 3: "list_all (\<lambda>n. node_type n \<noteq> END) (json_nodes no_end_json)"
    by (simp add: no_end_json_def fixtures node_types)
  have 4: "list_all (\<lambda>n. node_type n \<noteq> END) (json_nodes repeated_id_json)"
    by (simp add: repeated_id_json_def fixtures node_types)
  from 1 2 3 4 show ?thesis
    by (simp only: simp_thms)
qed

lemma find_snoc:
  "find P (xs @ [x]) =
     (case find P xs of Some y \<Rightarrow> Some y | None \<Rightarrow> if P x then Some x else None)"
  by (induction xs) auto

lemma route_update:
  "route (AList.update src
            (AList.update port tgt (case map_of ce src of None \<Rightarrow> [] | Some paths \<Rightarrow> paths))
            ce) s tag
     = (if s = src \<and> tag = port then Some tgt else route ce s tag)"
  by (auto simp: route_def update_conv' split: option.splits)

lemma route_collect:
  "tag \<noteq> [] \<Longrightarrow>
     route (collect_condition_edges es ce) s tag =
       (case find (\<lambda>e. sourceNodeID e = s \<and> sourcePortID e = tag) (rev es) of
          Some e \<Rightarrow> Some (targetNodeID e)
        | None \<Rightarrow> route ce s tag)"
proof (induction es arbitrary: ce)
  case Nil
  then show ?case by simp
next
  case (Cons edge rest)
  show ?case
    using Cons.prems
    by (auto simp: Cons.IH [OF Cons.prems] find_snoc route_update split: option.splits)
qed

lemma route_empty: "route [] s tag = None"
  by (simp add: route_def)

lemma successor_missing_tag:
  "map_of ce cur = Some paths \<Longrightarrow> map_of paths (should_continue state) = None \<Longrightarrow>
     condition_edges g = ce \<Longrightarrow> successor g cur state = Inl StructuralError"
  by (simp add: successor_def)

text \<open>
  C8, counterexample. A condition node that has no outgoing edge of port \<open>"false"\<close>:
  \<open>build\<close> succeeds, with a routing table for the node that holds \<open>"true"\<close> only. The
  run then reaches the node, its handler emits \<open>"false"\<close>, and only the lookup of the
  successor fails, after two handlers have run.
\<close>

theorem missing_false_port_builds:
  "build one_port_executor =
     Inr \<lparr>graph_nodes =
            [(''start'', HandleStart), (''check'', HandleCondition), (''end'', HandleEnd)],
          condition_edges = [(''check'', [(''true'', ''end'')])],
          plain_edges = [(''start'', ''check'')],
          entry_point = ''start'',
          finish_point = ''end''\<rparr> \<and>
   run_traced one_port_executor [''question'' \<mapsto> PStr ''hi'']
     = ([''start'', ''check''], Inl StructuralError)"
  by (simp add: one_port_executor_def one_port_workflow_def fixtures node_types run_defs
      numeral_3_eq_3 eval_condition_def compare_values_def)

text \<open>
  C8, as amended. \<open>build\<close> makes no check that the routing table of a condition node
  has an entry for \<open>"true"\<close> and for \<open>"false"\<close>: whenever a workflow builds, the
  workflow without any of its edges with a source port builds too, with the same nodes,
  plain edges, entry and finish point. The routing table of a source node holds exactly
  the tags of the edges with a source port that are left, each with the target of the
  last such edge. A tag that the table of a node lacks is met only when the run loop
  looks the successor up for that tag.
\<close>

theorem missing_tag_builds:
  assumes "build ex = Inr g"
      and "graph_rules ex' = graph_rules ex"
      and "nodes (workflow ex') = nodes (workflow ex)"
      and "edges (workflow ex')
             = filter (\<lambda>e. sourcePortID e = [] \<or> keep e) (edges (workflow ex))"
  shows "\<exists>g'. build ex' = Inr g' \<and>
           graph_nodes g' = graph_nodes g \<and> plain_edges g' = plain_edges g \<and>
           entry_point g' = entry_point g \<and> finish_point g' = finish_point g \<and>
           (\<forall>s tag. tag \<noteq> [] \<longrightarrow>
              route (condition_edges g') s tag =
                map_option targetNodeID
                  (find (\<lambda>e. sourceNodeID e = s \<and> sourcePortID e = tag)
                     (rev (edges (workflow ex'))))) \<and>
           (\<forall>cur state paths.
              map_of (condition_edges g') cur = Some paths \<longrightarrow>
              map_of paths (should_continue state) = None \<longrightarrow>
              successor g' cur state = Inl StructuralError)"
proof -
  define g' where "g' = g\<lparr>condition_edges := collect_condition_edges (edges (workflow ex')) []\<rparr>"
  have e: "add_edges (graph_rules ex) (edges (workflow ex')) []
             = add_edges (graph_rules ex) (edges (workflow ex)) []"
    by (simp add: assms(4) add_edges_ports)
  have b: "build ex' = Inr g'"
    using assms(1)
    by (auto simp: build_def g'_def e assms(2,3) split: sum.splits option.splits if_splits)
  have t: "\<forall>s tag. tag \<noteq> [] \<longrightarrow>
             route (condition_edges g') s tag =
               map_option targetNodeID
                 (find (\<lambda>e. sourceNodeID e = s \<and> sourcePortID e = tag)
                    (rev (edges (workflow ex'))))"
    by (simp add: g'_def route_collect route_empty split: option.splits)
  have m: "\<forall>cur state paths.
             map_of (condition_edges g') cur = Some paths \<longrightarrow>
             map_of paths (should_continue state) = None \<longrightarrow>
             successor g' cur state = Inl StructuralError"
    by (auto intro: successor_missing_tag)
  from b t m show ?thesis
    by (auto simp: g'_def)
qed

text \<open>
  The workflow with both ports builds, and so does the one without the edge of port
  \<open>"false"\<close>, whose table for the condition node then holds \<open>"true"\<close> only.
\<close>

theorem missing_tag_builds_witness:
  "(case build two_port_executor of Inl e \<Rightarrow> False | Inr g \<Rightarrow> True) \<and>
   edges (workflow one_port_executor)
     = filter (\<lambda>e. sourcePortID e = [] \<or> sourcePortID e \<noteq> ''false'')
         (edges (workflow two_port_executor)) \<and>
   (case build one_port_executor of
      Inl e \<Rightarrow> False
    | Inr g \<Rightarrow>
        route (condition_edges g) ''check'' ''true'' = Some ''end'' \<and>
        route (condition_edges g) ''check'' ''false'' = None)"
proof -
  obtain g where b: "build two_port_executor = Inr g"
    by (simp add: two_port_executor_def two_port_workflow_def fixtures node_types build_def
        create_node_handler_def)
  have r: "graph_rules one_port_executor = graph_rules two_port_executor"
    by (simp add: one_port_executor_def two_port_executor_def)
  have n: "nodes (workflow one_port_executor) = nodes (workflow two_port_executor)"
    by (simp add: one_port_executor_def two_port_executor_def one_port_workflow_def
        two_port_workflow_def)
  have e: "edges (workflow one_port_executor)
             = filter (\<lambda>e. sourcePortID e = [] \<or> sourcePortID e \<noteq> ''false'')
                 (edges (workflow two_port_executor))"
    by (simp add: one_port_executor_def two_port_executor_def one_port_workflow_def
        two_port_workflow_def fixtures)
  from missing_tag_builds [OF b r n e] obtain g' where
    b': "build one_port_executor = Inr g'" and
    t: "\<And>s tag. tag \<noteq> [] \<Longrightarrow>
          route (condition_edges g') s tag =
            map_option targetNodeID
              (find (\<lambda>e. sourceNodeID e = s \<and> sourcePortID e = tag)
                 (rev (edges (workflow one_port_executor))))"
    by blast
  have "route (condition_edges g') ''check'' ''true'' = Some ''end''"
    by (simp add: t one_port_executor_def one_port_workflow_def fixtures)
  moreover have "route (condition_edges g') ''check'' ''false'' = None"
    by (simp add: t one_port_executor_def one_port_workflow_def fixtures)
  ultimately show ?thesis
    using b b' e by simp
qed

section \<open>The output store\<close>

lemma get_node_by_id_id: "get_node_by_id w i = Some node \<Longrightarrow> node_id node = i"
  by (auto simp: get_node_by_id_def find_Some_iff)

lemma get_node_by_id_mem: "get_node_by_id w i = Some node \<Longrightarrow> node \<in> set (nodes w)"
  by (auto simp: get_node_by_id_def find_Some_iff)

lemma eval_conditions_outputs:
  "eval_conditions state cs = Inr state' \<Longrightarrow>
     node_outputs state' = node_outputs state \<and> final_output state' = final_output state"
  by (induction cs) (auto split: sum.splits if_splits)

lemma end_output_outputs:
  "end_output state ps = Inr state' \<Longrightarrow> node_outputs state' = node_outputs state"
  by (induction ps) (auto split: ValueContent.splits sum.splits)

lemma start_handler_state: "handle_start_node ex state = Inr state' \<Longrightarrow> state' = state"
  by (auto simp: handle_start_node_def split: option.splits)

lemma condition_handler_outputs:
  "handle_condition_node ex state = Inr state' \<Longrightarrow>
     node_outputs state' = node_outputs state \<and> final_output state' = final_output state"
  by (auto simp: handle_condition_node_def split: option.splits list.splits
      dest: eval_conditions_outputs)

lemma end_handler_outputs:
  "handle_end_node ex state = Inr state' \<Longrightarrow> node_outputs state' = node_outputs state"
  by (auto simp: handle_end_node_def split: option.splits dest: end_output_outputs)

lemma llm_handler_outputs:
  assumes "handle_llm_node ex state = Inr state'"
  shows "\<exists>reply. state' = state\<lparr>node_outputs :=
           AList.update (current_node state)
             [(''output'', \<lparr>out_value = PStr reply, out_type = ''string''\<rparr>)]
             (node_outputs state)\<rparr>"
proof -
  from assms obtain node where
    n: "get_node_by_id (workflow ex) (current_node state) = Some node"
    by (auto simp: handle_llm_node_def split: option.splits)
  have i: "node_id node = current_node state"
    using get_node_by_id_id [OF n] .
  from assms show ?thesis
    by (auto simp: handle_llm_node_def n i split: sum.splits)
qed

lemma kb_handler_outputs:
  assumes "handle_kb_node ex state = Inr state'"
  shows "state' = state\<lparr>node_outputs :=
           AList.update (current_node state)
             [(''context'', \<lparr>out_value = PStr kb_context, out_type = ''string''\<rparr>)]
             (node_outputs state)\<rparr>"
proof -
  from assms obtain node where
    n: "get_node_by_id (workflow ex) (current_node state) = Some node"
    by (auto simp: handle_kb_node_def split: option.splits)
  have i: "node_id node = current_node state"
    using get_node_by_id_id [OF n] .
  from assms show ?thesis
    by (auto simp: handle_kb_node_def n i split: sum.splits)
qed

text \<open>
  C6, counterexample. The model node of the loop workflow runs in a state where the
  store already holds its output \<open>"old"\<close>: the handler returns, with that entry replaced
  by the new output. And a run of the loop invokes the model handler four times and
  ends with the budget's error, not with an error about a duplicate output.
\<close>

theorem second_visit_overwrites:
  "wrapped_handler loop_executor ''model'' HandleLLM second_visit_state
   = Inr (second_visit_state
       \<lparr>node_outputs :=
          [(''start'', [(''question'', \<lparr>out_value = PStr ''hi'', out_type = ''string''\<rparr>)]),
           (''model'', [(''output'', \<lparr>out_value = PStr ''hi'', out_type = ''string''\<rparr>)])],
        current_node := ''model''\<rparr>) \<and>
   run_traced loop_executor [''question'' \<mapsto> PStr ''hi'']
   = ([''start'', ''model'', ''check'', ''model'', ''check'', ''model'', ''check'', ''model''],
      Inl RecursionLimitError)"
proof (rule conjI)
  show "wrapped_handler loop_executor ''model'' HandleLLM second_visit_state
   = Inr (second_visit_state
       \<lparr>node_outputs :=
          [(''start'', [(''question'', \<lparr>out_value = PStr ''hi'', out_type = ''string''\<rparr>)]),
           (''model'', [(''output'', \<lparr>out_value = PStr ''hi'', out_type = ''string''\<rparr>)])],
        current_node := ''model''\<rparr>)"
    by (simp add: loop_executor_def loop_workflow_def second_visit_state_def fixtures
        node_types run_defs)
  show "run_traced loop_executor [''question'' \<mapsto> PStr ''hi'']
   = ([''start'', ''model'', ''check'', ''model'', ''check'', ''model'', ''check'', ''model''],
      Inl RecursionLimitError)"
    by code_simp
qed

text \<open>
  C6, as amended. A handler that returns changes no entry of the store but the one of
  the node it runs for: the entries of all other node IDs stay as they were. The model
  and the knowledge base handler assign the whole entry of their node, a single output
  \<open>output\<close> or \<open>context\<close>, replacing what the store held for the node, without an error;
  the start, condition and end handlers leave the store as it is.
\<close>

theorem handler_writes_own_entry:
  assumes "wrapped_handler ex nid h state = Inr state'"
  shows "(\<forall>k. k \<noteq> nid \<longrightarrow> map_of (node_outputs state') k = map_of (node_outputs state) k) \<and>
         (h = HandleLLM \<longrightarrow>
            (\<exists>reply. map_of (node_outputs state') nid =
               Some [(''output'', \<lparr>out_value = PStr reply, out_type = ''string''\<rparr>)])) \<and>
         (h = HandleKB \<longrightarrow>
            map_of (node_outputs state') nid =
              Some [(''context'', \<lparr>out_value = PStr kb_context, out_type = ''string''\<rparr>)]) \<and>
         (h \<noteq> HandleLLM \<and> h \<noteq> HandleKB \<longrightarrow> node_outputs state' = node_outputs state)"
proof (cases h)
  case HandleStart
  with assms show ?thesis
    by (auto simp: wrapped_handler_def run_handler_def dest!: start_handler_state)
next
  case HandleLLM
  with assms obtain reply where
    "state' = state\<lparr>current_node := nid,
       node_outputs := AList.update nid
         [(''output'', \<lparr>out_value = PStr reply, out_type = ''string''\<rparr>)]
         (node_outputs state)\<rparr>"
    by (auto simp: wrapped_handler_def run_handler_def dest!: llm_handler_outputs)
  with HandleLLM show ?thesis
    by (simp add: update_conv')
next
  case HandleCondition
  with assms show ?thesis
    by (auto simp: wrapped_handler_def run_handler_def dest!: condition_handler_outputs)
next
  case HandleEnd
  with assms show ?thesis
    by (auto simp: wrapped_handler_def run_handler_def dest!: end_handler_outputs)
next
  case HandleKB
  with assms have
    "state' = state\<lparr>current_node := nid,
       node_outputs := AList.update nid
         [(''context'', \<lparr>out_value = PStr kb_context, out_type = ''string''\<rparr>)]
         (node_outputs state)\<rparr>"
    by (auto simp: wrapped_handler_def run_handler_def dest!: kb_handler_outputs)
  with HandleKB show ?thesis
    by (simp add: update_conv')
qed

theorem handler_writes_own_entry_witness:
  "wrapped_handler loop_executor ''model'' HandleLLM second_visit_state
   = Inr (second_visit_state
       \<lparr>node_outputs :=
          [(''start'', [(''question'', \<lparr>out_value = PStr ''hi'', out_type = ''string''\<rparr>)]),
           (''model'', [(''output'', \<lparr>out_value = PStr ''hi'', out_type = ''string''\<rparr>)])],
        current_node := ''model''\<rparr>) \<and>
   map_of (node_outputs second_visit_state) ''start''
   = Some [(''question'', \<lparr>out_value = PStr ''hi'', out_type = ''string''\<rparr>)]"
proof -
  let ?st' = "second_visit_state
       \<lparr>node_outputs :=
          [(''start'', [(''question'', \<lparr>out_value = PStr ''hi'', out_type = ''string''\<rparr>)]),
           (''model'', [(''output'', \<lparr>out_value = PStr ''hi'', out_type = ''string''\<rparr>)])],
        current_node := ''model''\<rparr>"
  have r: "wrapped_handler loop_executor ''model'' HandleLLM second_visit_state = Inr ?st'"
    by (simp add: loop_executor_def loop_workflow_def second_visit_state_def fixtures node_types
        run_defs)
  have k: "''start'' \<noteq> ''model''"
    by simp
  from handler_writes_own_entry [OF r]
  have "\<forall>k. k \<noteq> ''model'' \<longrightarrow>
          map_of (node_outputs ?st') k = map_of (node_outputs second_visit_state) k"
    by (rule conjunct1)
  from this [rule_format, OF k]
  have "map_of (node_outputs second_visit_state) ''start''
      = Some [(''question'', \<lparr>out_value = PStr ''hi'', out_type = ''string''\<rparr>)]"
    by simp
  with r show ?thesis
    by (simp only: simp_thms)
qed

section \<open>The knowledge base node\<close>

text \<open>
  C9, the code at the failing input. The workflow Start, KnowledgeRetrieval, End, where
  the knowledge base node queries with the seed question and the end node refers to
  the retrieved \<open>context\<close>: for the seeds \<open>"hi"\<close> and \<open>"what is a workflow"\<close> alike, the
  run yields the fixed text that the handler assigns to \<open>context\<close>. The handler reads
  the query and calls no retrieval collaborator.
\<close>

theorem kb_context_is_fixed:
  "run kb_executor [''question'' \<mapsto> PStr ''hi''] = Inr kb_context \<and>
   run kb_executor [''question'' \<mapsto> PStr ''what is a workflow''] = Inr kb_context"
  by (simp add: kb_executor_def kb_workflow_def fixtures node_types run_defs
      numeral_2_eq_2 numeral_3_eq_3)

section \<open>The end node without a reference\<close>

lemma end_output_no_refs:
  "\<forall>p\<in>set ps. \<not> is_ref (val (input p)) \<Longrightarrow> end_output state ps = Inr state"
  by (induction ps) (auto split: ValueContent.splits)

lemma find_distinct:
  "distinct (map f xs) \<Longrightarrow> x \<in> set xs \<Longrightarrow> find (\<lambda>y. f y = f x) xs = Some x"
  by (induction xs) auto

lemma get_node_by_id_distinct:
  "distinct (map node_id (nodes w)) \<Longrightarrow> n \<in> set (nodes w) \<Longrightarrow>
     get_node_by_id w (node_id n) = Some n"
  by (simp add: get_node_by_id_def find_distinct)

lemma create_node_handler_end: "create_node_handler t = Inr HandleEnd \<longleftrightarrow> t = END"
  by (auto simp: create_node_handler_def node_types)

lemma add_nodes_lookup:
  "add_nodes rules ns g = Inr r \<Longrightarrow> map_of r i = Some h \<Longrightarrow>
     map_of g i = Some h \<or>
     (\<exists>n\<in>set ns. node_id n = i \<and> create_node_handler (node_type n) = Inr h)"
proof (induction ns arbitrary: g)
  case Nil
  then show ?case by simp
next
  case (Cons n ns)
  from Cons.prems(1) obtain h0 where
    h0: "create_node_handler (node_type n) = Inr h0" and
    r: "add_nodes rules ns (AList.update (node_id n) h0 g) = Inr r"
    by (auto split: sum.splits if_splits)
  from Cons.IH [OF r Cons.prems(2)] h0 show ?case
    by (auto simp: update_conv' split: if_splits)
qed

lemma add_nodes_dom:
  "add_nodes rules ns g = Inr r \<Longrightarrow> map_of g i \<noteq> None \<or> i \<in> node_id ` set ns \<Longrightarrow>
     map_of r i \<noteq> None"
proof (induction ns arbitrary: g)
  case Nil
  then show ?case by simp
next
  case (Cons n ns)
  from Cons.prems(1) obtain h0 where
    r: "add_nodes rules ns (AList.update (node_id n) h0 g) = Inr r"
    by (auto split: sum.splits if_splits)
  from Cons.prems(2)
  have "map_of (AList.update (node_id n) h0 g) i \<noteq> None \<or> i \<in> node_id ` set ns"
    by (auto simp: update_conv')
  from Cons.IH [OF r this] show ?case .
qed

lemma build_graph:
  assumes "build ex = Inr g"
  obtains start_node end_node where
    "add_nodes (graph_rules ex) (nodes (workflow ex)) [] = Inr (graph_nodes g)"
    "find (\<lambda>node. node_type node = START) (nodes (workflow ex)) = Some start_node"
    "find (\<lambda>node. node_type node = END) (nodes (workflow ex)) = Some end_node"
    "entry_point g = node_id start_node"
    "finish_point g = node_id end_node"
    "condition_edges g = collect_condition_edges (edges (workflow ex)) []"
    "plain_edges g =
       map (\<lambda>edge. (sourceNodeID edge, targetNodeID edge))
         (filter (\<lambda>edge. sourcePortID edge = []) (edges (workflow ex)))"
  using assms
  by (auto simp: build_def split: sum.splits option.splits if_splits dest: add_edges_result)

lemma build_registered:
  assumes "build ex = Inr g" and "map_of (graph_nodes g) i = Some h"
  shows "\<exists>n\<in>set (nodes (workflow ex)).
           node_id n = i \<and> create_node_handler (node_type n) = Inr h"
proof -
  from assms(1)
  have "add_nodes (graph_rules ex) (nodes (workflow ex)) [] = Inr (graph_nodes g)"
    by (rule build_graph)
  from add_nodes_lookup [OF this assms(2)] show ?thesis by simp
qed

lemma build_finish_handler:
  assumes b: "build ex = Inr g"
      and d: "distinct (map node_id (nodes (workflow ex)))"
  shows "map_of (graph_nodes g) (finish_point g) = Some HandleEnd \<and>
         (\<exists>n\<in>set (nodes (workflow ex)).
            node_type n = END \<and> node_id n = finish_point g \<and>
            get_node_by_id (workflow ex) (finish_point g) = Some n)"
proof -
  from b obtain start_node end_node where
    a: "add_nodes (graph_rules ex) (nodes (workflow ex)) [] = Inr (graph_nodes g)" and
    e: "find (\<lambda>node. node_type node = END) (nodes (workflow ex)) = Some end_node" and
    f: "finish_point g = node_id end_node"
    by (rule build_graph)
  from e have m: "end_node \<in> set (nodes (workflow ex))" and t: "node_type end_node = END"
    by (auto simp: find_Some_iff)
  from add_nodes_dom [OF a, of "node_id end_node"] m
  obtain h where h: "map_of (graph_nodes g) (node_id end_node) = Some h"
    by auto
  from build_registered [OF b h] obtain n where
    n: "n \<in> set (nodes (workflow ex))" "node_id n = node_id end_node"
       "create_node_handler (node_type n) = Inr h"
    by auto
  from d n(1,2) m have "n = end_node"
    by (auto simp: distinct_map inj_on_def)
  with n(3) t have "h = HandleEnd"
    by (simp add: create_node_handler_def node_types)
  with h f m t get_node_by_id_distinct [OF d m] show ?thesis
    by auto
qed

lemma handler_final_output:
  assumes "wrapped_handler ex nid h state = Inr state'" and "h \<noteq> HandleEnd"
  shows "final_output state' = final_output state"
proof (cases h)
  case HandleStart
  with assms show ?thesis
    by (auto simp: wrapped_handler_def run_handler_def dest!: start_handler_state)
next
  case HandleLLM
  with assms show ?thesis
    by (auto simp: wrapped_handler_def run_handler_def dest!: llm_handler_outputs)
next
  case HandleCondition
  with assms show ?thesis
    by (auto simp: wrapped_handler_def run_handler_def dest!: condition_handler_outputs)
next
  case HandleEnd
  with assms show ?thesis by simp
next
  case HandleKB
  with assms show ?thesis
    by (auto simp: wrapped_handler_def run_handler_def dest!: kb_handler_outputs)
qed

lemma end_handler_no_refs:
  assumes "get_node_by_id (workflow ex) (current_node state) = Some node"
      and "\<forall>p\<in>set (input_params node). \<not> is_ref (val (input p))"
  shows "handle_end_node ex state = Inr state"
  using assms by (simp add: handle_end_node_def end_output_no_refs)

lemma registered_end_no_refs:
  assumes b: "build ex = Inr g"
      and d: "distinct (map node_id (nodes (workflow ex)))"
      and e: "\<forall>n\<in>set (nodes (workflow ex)).
                node_type n = END \<longrightarrow> (\<forall>p\<in>set (input_params n). \<not> is_ref (val (input p)))"
      and h: "map_of (graph_nodes g) cur = Some HandleEnd"
  shows "wrapped_handler ex cur HandleEnd state = Inr (state\<lparr>current_node := cur\<rparr>)"
proof -
  from build_registered [OF b h] obtain n where
    n: "n \<in> set (nodes (workflow ex))" "node_id n = cur"
       "create_node_handler (node_type n) = Inr HandleEnd"
    by auto
  from n(3) have t: "node_type n = END"
    by (simp add: create_node_handler_end)
  from get_node_by_id_distinct [OF d n(1)] n(2)
  have "get_node_by_id (workflow ex) (current_node (state\<lparr>current_node := cur\<rparr>)) = Some n"
    by simp
  moreover from e n(1) t have "\<forall>p\<in>set (input_params n). \<not> is_ref (val (input p))"
    by blast
  ultimately have "handle_end_node ex (state\<lparr>current_node := cur\<rparr>)
      = Inr (state\<lparr>current_node := cur\<rparr>)"
    by (rule end_handler_no_refs)
  then show ?thesis
    by (simp add: wrapped_handler_def run_handler_def)
qed

lemma run_loop_final_output:
  assumes b: "build ex = Inr g"
      and d: "distinct (map node_id (nodes (workflow ex)))"
      and e: "\<forall>n\<in>set (nodes (workflow ex)).
                node_type n = END \<longrightarrow> (\<forall>p\<in>set (input_params n). \<not> is_ref (val (input p)))"
  shows "snd (run_loop ex g budget cur state) = Inr state' \<Longrightarrow>
           final_output state' = final_output state"
proof (induction budget arbitrary: cur state)
  case 0
  then show ?case by simp
next
  case (Suc budget)
  from Suc.prems obtain h where h: "map_of (graph_nodes g) cur = Some h"
    by (auto split: option.splits)
  from Suc.prems h obtain state1 where s1: "wrapped_handler ex cur h state = Inr state1"
    by (auto split: sum.splits)
  have f1: "final_output state1 = final_output state"
  proof (cases "h = HandleEnd")
    case True
    with registered_end_no_refs [OF b d e] h s1 show ?thesis
      by auto
  next
    case False
    with handler_final_output [OF s1] show ?thesis by simp
  qed
  show ?case
  proof (cases "cur = finish_point g")
    case True
    with Suc.prems h s1 f1 show ?thesis by simp
  next
    case False
    with Suc.prems h s1 obtain nxt where
      n: "successor g cur state1 = Inr nxt" and
      r: "snd (run_loop ex g budget nxt state1) = Inr state'"
      by (auto split: sum.splits prod.splits)
    from Suc.IH [OF r] f1 show ?thesis by simp
  qed
qed

lemma run_completes:
  assumes "run ex inps = Inr s"
  shows "\<exists>start_node question g visited final_state.
           find (\<lambda>node. node_type node = START) (nodes (workflow ex)) = Some start_node \<and>
           inps ''question'' = Some question \<and>
           build ex = Inr g \<and>
           ainvoke ex g (initial_state (node_id start_node) question)
             (length (nodes (workflow ex)) * 2) = (visited, Inr final_state) \<and>
           final_output final_state = PStr s"
  using assms
  by (auto simp: run_def run_traced_def split: option.splits sum.splits prod.splits
      pyval.splits)

text \<open>
  C10. For every workflow with distinct node IDs in which no input parameter of an
  end node is a reference (they are literals, or there are none): the end handler
  returns the state as it is, without an error, so the literal is neither delivered nor
  reported; a run that arrives at the end node completes there; and every run that
  completes yields the empty stream, the initial value of the final output.
\<close>

theorem end_without_reference:
  assumes d: "distinct (map node_id (nodes (workflow ex)))"
      and e: "\<forall>n\<in>set (nodes (workflow ex)).
                node_type n = END \<longrightarrow> (\<forall>p\<in>set (input_params n). \<not> is_ref (val (input p)))"
  shows "(\<forall>state node.
            get_node_by_id (workflow ex) (current_node state) = Some node \<longrightarrow>
            node_type node = END \<longrightarrow> handle_end_node ex state = Inr state) \<and>
         (\<forall>g budget state.
            build ex = Inr g \<longrightarrow>
            run_loop ex g (Suc budget) (finish_point g) state
              = ([finish_point g], Inr (state\<lparr>current_node := finish_point g\<rparr>))) \<and>
         (run ex inps = Inr [] \<or> (\<exists>err. run ex inps = Inl err))"
proof (intro conjI allI impI)
  fix state :: WorkflowState and node
  assume n: "get_node_by_id (workflow ex) (current_node state) = Some node"
     and t: "node_type node = END"
  from n have "node \<in> set (nodes (workflow ex))"
    by (rule get_node_by_id_mem)
  with e t have "\<forall>p\<in>set (input_params node). \<not> is_ref (val (input p))"
    by blast
  with n show "handle_end_node ex state = Inr state"
    by (rule end_handler_no_refs)
next
  fix g budget and state :: WorkflowState
  assume b: "build ex = Inr g"
  from build_finish_handler [OF b d]
  have h: "map_of (graph_nodes g) (finish_point g) = Some HandleEnd"
    by simp
  from registered_end_no_refs [OF b d e h]
  have "wrapped_handler ex (finish_point g) HandleEnd state
          = Inr (state\<lparr>current_node := finish_point g\<rparr>)" .
  with h show "run_loop ex g (Suc budget) (finish_point g) state
                 = ([finish_point g], Inr (state\<lparr>current_node := finish_point g\<rparr>))"
    by simp
next
  show "run ex inps = Inr [] \<or> (\<exists>err. run ex inps = Inl err)"
  proof (cases "run ex inps")
    case (Inl err)
    then show ?thesis by simp
  next
    case (Inr s)
    from run_completes [OF this] obtain start_node :: Node and question g visited final_state where
      b: "build ex = Inr g" and
      a: "ainvoke ex g (initial_state (node_id start_node) question)
            (length (nodes (workflow ex)) * 2) = (visited, Inr final_state)" and
      s: "final_output final_state = PStr s"
      by blast
    from a have "snd (run_loop ex g (length (nodes (workflow ex)) * 2) (entry_point g)
                   (initial_state (node_id start_node) question)) = Inr final_state"
      by (simp add: ainvoke_def)
    from run_loop_final_output [OF b d e this]
    have "final_output final_state = PStr []"
      by (simp add: initial_state_def)
    with s Inr show ?thesis by simp
  qed
qed

theorem end_without_reference_witness:
  "distinct (map node_id (nodes (workflow literal_end_executor))) \<and>
   list_all (\<lambda>n. list_all (\<lambda>p. \<not> is_ref (val (input p))) (input_params n))
     (filter (\<lambda>n. node_type n = END) (nodes (workflow literal_end_executor))) \<and>
   run literal_end_executor [''question'' \<mapsto> PStr ''hi''] = Inr []"
proof -
  have d: "distinct (map node_id (nodes (workflow literal_end_executor)))"
    by (simp add: literal_end_executor_def literal_end_workflow_def fixtures)
  have e: "\<forall>n\<in>set (nodes (workflow literal_end_executor)).
             node_type n = END \<longrightarrow> (\<forall>p\<in>set (input_params n). \<not> is_ref (val (input p)))"
    by (simp add: literal_end_executor_def literal_end_workflow_def fixtures node_types
        input_params_def)
  have r: "\<not> (\<exists>err. run literal_end_executor [''question'' \<mapsto> PStr ''hi''] = Inl err)"
    by (simp add: literal_end_executor_def literal_end_workflow_def fixtures node_types
        run_defs numeral_2_eq_2)
  from end_without_reference [OF d e, of "[''question'' \<mapsto> PStr ''hi'']"] r
  have "run literal_end_executor [''question'' \<mapsto> PStr ''hi''] = Inr []"
    by blast
  with d e show ?thesis
    by (auto simp: list_all_iff)
qed

section \<open>References to outputs that were not produced\<close>

lemma node_output_value_produced:
  "node_output_value state b n = Inl KeyError \<longleftrightarrow> \<not> produced state b n"
  by (auto simp: node_output_value_def produced_def split: option.splits)

lemma node_output_value_missing:
  "\<not> produced state b n \<Longrightarrow> node_output_value state b n = Inl KeyError"
  by (simp add: node_output_value_produced)

lemma node_output_value_error: "node_output_value state b n = Inl e \<Longrightarrow> e = KeyError"
  by (auto simp: node_output_value_def split: option.splits)

lemma llm_inputs_dangling:
  "\<exists>p\<in>set ps. \<exists>b n. val (input p) = Ref b n \<and> \<not> produced state b n \<Longrightarrow>
     llm_inputs state ps acc = Inl KeyError"
proof (induction ps arbitrary: acc)
  case Nil
  then show ?case by simp
next
  case (Cons p ps)
  show ?case
  proof (cases "\<exists>b n. val (input p) = Ref b n \<and> \<not> produced state b n")
    case True
    then show ?thesis
      by (auto simp: node_output_value_missing)
  next
    case False
    with Cons.prems have "\<exists>p\<in>set ps. \<exists>b n. val (input p) = Ref b n \<and> \<not> produced state b n"
      by auto
    then have "\<And>acc. llm_inputs state ps acc = Inl KeyError"
      by (rule Cons.IH)
    then show ?thesis
      by (auto split: ValueContent.splits sum.splits dest: node_output_value_error)
  qed
qed

lemma kb_query_dangling:
  "\<exists>p\<in>set ps. \<exists>b n. val (input p) = Ref b n \<and> \<not> produced state b n \<Longrightarrow>
     kb_query state ps query = Inl KeyError"
proof (induction ps arbitrary: query)
  case Nil
  then show ?case by simp
next
  case (Cons p ps)
  show ?case
  proof (cases "\<exists>b n. val (input p) = Ref b n \<and> \<not> produced state b n")
    case True
    then show ?thesis
      by (auto simp: node_output_value_missing)
  next
    case False
    with Cons.prems have "\<exists>p\<in>set ps. \<exists>b n. val (input p) = Ref b n \<and> \<not> produced state b n"
      by auto
    then have "\<And>query. kb_query state ps query = Inl KeyError"
      by (rule Cons.IH)
    then show ?thesis
      by (auto split: ValueContent.splits sum.splits dest: node_output_value_error)
  qed
qed

lemma end_output_dangling:
  "\<forall>q\<in>set lits. \<not> is_ref (val (input q)) \<Longrightarrow> val (input p) = Ref b n \<Longrightarrow>
     \<not> produced state b n \<Longrightarrow> end_output state (lits @ p # rest) = Inl KeyError"
  by (induction lits) (auto simp: node_output_value_missing split: ValueContent.splits)

lemma get_condition_value_dangling:
  "dangling_operand state operand \<Longrightarrow> get_condition_value state operand = Inl KeyError"
  by (cases operand)
    (auto simp: dangling_operand_def node_output_value_missing split: ValueContent.splits)

lemma get_condition_value_error: "get_condition_value state operand = Inl e \<Longrightarrow> e = KeyError"
  by (cases operand) (auto split: ValueContent.splits dest: node_output_value_error)

lemma eval_condition_dangling:
  "dangling_operand state (left c) \<or> dangling_operand state (right c) \<Longrightarrow>
     eval_condition state c = Inl KeyError"
  by (auto simp: eval_condition_def get_condition_value_dangling split: sum.splits
      dest: get_condition_value_error)

lemma run_loop_handler_error:
  "map_of (graph_nodes g) cur = Some h \<Longrightarrow> wrapped_handler ex cur h state = Inl e \<Longrightarrow>
     run_loop ex g (Suc budget) cur state = ([cur], Inl e)"
  by simp

lemma run_loop_finish:
  "map_of (graph_nodes g) cur = Some h \<Longrightarrow> wrapped_handler ex cur h state = Inr state' \<Longrightarrow>
     cur = finish_point g \<Longrightarrow> run_loop ex g (Suc budget) cur state = ([cur], Inr state')"
  by simp

lemma node_output_value_found:
  "produced state b n \<Longrightarrow> \<exists>v. node_output_value state b n = Inr v"
  by (auto simp: node_output_value_def produced_def split: option.splits)

lemma llm_inputs_produced:
  "\<forall>p\<in>set ps. \<forall>b n. val (input p) = Ref b n \<longrightarrow> produced state b n \<Longrightarrow>
     \<exists>inps. llm_inputs state ps acc = Inr inps"
proof (induction ps arbitrary: acc)
  case Nil
  then show ?case by simp
next
  case (Cons p ps)
  from Cons.prems
  have rest: "\<forall>p\<in>set ps. \<forall>b n. val (input p) = Ref b n \<longrightarrow> produced state b n"
    by simp
  show ?case
  proof (cases "val (input p)")
    case (Literal c)
    with Cons.IH [OF rest] show ?thesis by simp
  next
    case (Ref b n)
    with Cons.prems have "produced state b n" by simp
    then obtain v where "node_output_value state b n = Inr v"
      using node_output_value_found by blast
    with Ref Cons.IH [OF rest] show ?thesis by simp
  qed
qed

lemma kb_query_produced:
  "\<forall>p\<in>set ps. \<forall>b n. val (input p) = Ref b n \<longrightarrow> produced state b n \<Longrightarrow>
     \<exists>q. kb_query state ps query = Inr q"
proof (induction ps arbitrary: query)
  case Nil
  then show ?case by simp
next
  case (Cons p ps)
  from Cons.prems
  have rest: "\<forall>p\<in>set ps. \<forall>b n. val (input p) = Ref b n \<longrightarrow> produced state b n"
    by simp
  show ?case
  proof (cases "val (input p)")
    case (Literal c)
    with Cons.IH [OF rest] show ?thesis by simp
  next
    case (Ref b n)
    with Cons.prems have "produced state b n" by simp
    then obtain v where "node_output_value state b n = Inr v"
      using node_output_value_found by blast
    with Ref Cons.IH [OF rest] show ?thesis by simp
  qed
qed

lemma end_output_first:
  "\<forall>q\<in>set lits. \<not> is_ref (val (input q)) \<Longrightarrow> val (input p) = Ref b n \<Longrightarrow>
     end_output state (lits @ p # rest) =
       (case node_output_value state b n of
          Inl e \<Rightarrow> Inl e
        | Inr v \<Rightarrow> Inr (state\<lparr>final_output := v\<rparr>))"
  by (induction lits) (auto split: ValueContent.splits)

lemma end_output_first_reference:
  "end_output state ps =
     (case first_reference ps of
        None \<Rightarrow> Inr state
      | Some (b, n) \<Rightarrow>
          (case node_output_value state b n of
             Inl e \<Rightarrow> Inl e
           | Inr v \<Rightarrow> Inr (state\<lparr>final_output := v\<rparr>)))"
  by (induction ps) (auto split: ValueContent.splits)

lemma get_condition_value_first:
  "get_condition_value state (entry # others) = get_condition_value state [entry]"
  by (cases entry) simp

lemma get_condition_value_found:
  "\<not> dangling_operand state operand \<Longrightarrow> \<exists>v. get_condition_value state operand = Inr v"
  by (cases operand)
    (auto simp: dangling_operand_def split: ValueContent.splits dest: node_output_value_found)

lemma py_len_error: "py_len v = Inl e \<Longrightarrow> e = TypeError"
  by (cases v) auto

lemma py_int_error: "py_int v = Inl e \<Longrightarrow> e = TypeError \<or> e = ValueError"
  by (cases v) (auto split: option.splits)

lemma compare_values_error: "compare_values l op r = Inl e \<Longrightarrow> e = TypeError \<or> e = ValueError"
  by (auto simp: compare_values_def split: if_splits sum.splits
      dest: py_len_error py_int_error)

lemma eval_condition_key_error:
  "eval_condition state c = Inl KeyError \<longleftrightarrow>
     dangling_operand state (left c) \<or> dangling_operand state (right c)"
proof
  assume k: "eval_condition state c = Inl KeyError"
  show "dangling_operand state (left c) \<or> dangling_operand state (right c)"
  proof (rule ccontr)
    assume "\<not> (dangling_operand state (left c) \<or> dangling_operand state (right c))"
    then obtain l r where
      "get_condition_value state (left c) = Inr l" "get_condition_value state (right c) = Inr r"
      using get_condition_value_found by blast
    with k have "compare_values l (operator c) r = Inl KeyError"
      by (simp add: eval_condition_def)
    from compare_values_error [OF this] show False by simp
  qed
next
  assume "dangling_operand state (left c) \<or> dangling_operand state (right c)"
  then show "eval_condition state c = Inl KeyError"
    by (rule eval_condition_dangling)
qed

subsection \<open>A run does not depend on what no handler reads\<close>

lemma same_read_id: "same_read n n' \<Longrightarrow> node_id n' = node_id n"
  by (simp add: same_read_def)

lemma same_read_type: "same_read n n' \<Longrightarrow> node_type n' = node_type n"
  by (simp add: same_read_def)

lemma add_nodes_map:
  "\<forall>n\<in>set ns. same_read n (f n) \<Longrightarrow> add_nodes rules (map f ns) g = add_nodes rules ns g"
  by (induction ns arbitrary: g) (auto simp: same_read_def split: sum.splits)

lemma find_map_type:
  "\<forall>n\<in>set ns. same_read n (f n) \<Longrightarrow>
     find (\<lambda>n. node_type n = t) (map f ns) = map_option f (find (\<lambda>n. node_type n = t) ns)"
  by (induction ns) (auto simp: same_read_def)

lemma find_map_id:
  "\<forall>n\<in>set ns. same_read n (f n) \<Longrightarrow>
     find (\<lambda>n. node_id n = i) (map f ns) = map_option f (find (\<lambda>n. node_id n = i) ns)"
  by (induction ns) (auto simp: same_read_def)

lemma build_same_read:
  assumes "graph_rules ex' = graph_rules ex"
      and "nodes (workflow ex') = map f (nodes (workflow ex))"
      and "edges (workflow ex') = edges (workflow ex)"
      and s: "\<forall>n\<in>set (nodes (workflow ex)). same_read n (f n)"
  shows "build ex' = build ex"
proof -
  have i: "node_id (f n) = node_id n"
    if "find (\<lambda>node. node_type node = t) (nodes (workflow ex)) = Some n" for t n
  proof -
    from that have "n \<in> set (nodes (workflow ex))"
      by (auto simp: find_Some_iff)
    with s show ?thesis
      by (simp add: same_read_def)
  qed
  show ?thesis
    using assms(1-3)
    by (auto simp: build_def add_nodes_map [OF s] find_map_type [OF s] i
        split: sum.splits option.splits)
qed

lemma build_distinct:
  assumes "build ex = Inr g"
  shows "distinct (map node_id (nodes (workflow ex)))"
proof -
  from assms
  have "add_nodes (graph_rules ex) (nodes (workflow ex)) [] = Inr (graph_nodes g)"
    by (rule build_graph)
  then have "\<exists>r. add_nodes (graph_rules ex) (nodes (workflow ex)) [] = Inr r"
    by simp
  then show ?thesis
    by (simp add: add_nodes_accepted)
qed

lemma create_node_handler_type:
  "create_node_handler t = Inr h \<Longrightarrow>
     t = (case h of HandleStart \<Rightarrow> START | HandleLLM \<Rightarrow> LLM | HandleCondition \<Rightarrow> CONDITION
          | HandleEnd \<Rightarrow> END | HandleKB \<Rightarrow> KB)"
  by (auto simp: create_node_handler_def split: if_splits)

lemma wrapped_handler_same_read:
  assumes b: "build ex = Inr g"
      and c: "chat_model ex' = chat_model ex"
      and n: "nodes (workflow ex') = map f (nodes (workflow ex))"
      and s: "\<forall>n\<in>set (nodes (workflow ex)). same_read n (f n)"
      and h: "map_of (graph_nodes g) cur = Some h"
  shows "wrapped_handler ex' cur h state = wrapped_handler ex cur h state"
proof -
  from build_registered [OF b h] obtain m where
    m: "m \<in> set (nodes (workflow ex))" "node_id m = cur"
       "create_node_handler (node_type m) = Inr h"
    by auto
  from get_node_by_id_distinct [OF build_distinct [OF b] m(1)] m(2)
  have g: "get_node_by_id (workflow ex) cur = Some m"
    by simp
  with n find_map_id [OF s, of cur]
  have g': "get_node_by_id (workflow ex') cur = Some (f m)"
    by (simp add: get_node_by_id_def)
  from s m(1) have r: "same_read m (f m)"
    by simp
  from create_node_handler_type [OF m(3)] have t: "node_type m =
      (case h of HandleStart \<Rightarrow> START | HandleLLM \<Rightarrow> LLM | HandleCondition \<Rightarrow> CONDITION
       | HandleEnd \<Rightarrow> END | HandleKB \<Rightarrow> KB)" .
  show ?thesis
  proof (cases h)
    case HandleStart
    with g g' show ?thesis
      by (simp add: wrapped_handler_def run_handler_def handle_start_node_def)
  next
    case HandleLLM
    with t r have "f m = m"
      by (simp add: same_read_def node_types)
    with HandleLLM g g' c show ?thesis
      by (simp add: wrapped_handler_def run_handler_def handle_llm_node_def
          split: sum.splits)
  next
    case HandleCondition
    with t r have "first_conditions (f m) = first_conditions m"
      by (simp add: same_read_def node_types)
    with HandleCondition g g' show ?thesis
      by (auto simp: wrapped_handler_def run_handler_def handle_condition_node_def
          first_conditions_def split: list.splits)
  next
    case HandleEnd
    with t r have "first_reference (input_params (f m)) = first_reference (input_params m)"
      by (simp add: same_read_def)
    with HandleEnd g g' show ?thesis
      by (simp add: wrapped_handler_def run_handler_def handle_end_node_def
          end_output_first_reference)
  next
    case HandleKB
    with t r have "f m = m"
      by (simp add: same_read_def node_types)
    with HandleKB g g' show ?thesis
      by (simp add: wrapped_handler_def run_handler_def handle_kb_node_def)
  qed
qed

lemma run_loop_same_read:
  assumes b: "build ex = Inr g"
      and c: "chat_model ex' = chat_model ex"
      and n: "nodes (workflow ex') = map f (nodes (workflow ex))"
      and s: "\<forall>n\<in>set (nodes (workflow ex)). same_read n (f n)"
  shows "run_loop ex' g budget cur state = run_loop ex g budget cur state"
proof (induction budget arbitrary: cur state)
  case 0
  show ?case by simp
next
  case (Suc budget)
  show ?case
  proof (cases "map_of (graph_nodes g) cur")
    case None
    then show ?thesis by simp
  next
    case (Some h)
    from wrapped_handler_same_read [OF b c n s Some]
    have "wrapped_handler ex' cur h state = wrapped_handler ex cur h state" .
    with Some Suc.IH show ?thesis
      by (simp split: sum.splits)
  qed
qed

lemma run_traced_same_read:
  assumes r: "graph_rules ex' = graph_rules ex"
      and c: "chat_model ex' = chat_model ex"
      and n: "nodes (workflow ex') = map f (nodes (workflow ex))"
      and e: "edges (workflow ex') = edges (workflow ex)"
      and s: "\<forall>n\<in>set (nodes (workflow ex)). same_read n (f n)"
  shows "run_traced ex' inps = run_traced ex inps"
proof (cases "find (\<lambda>node. node_type node = START) (nodes (workflow ex))")
  case None
  with n find_map_type [OF s, of START] show ?thesis
    by (simp add: run_traced_def)
next
  case (Some start_node)
  then have "start_node \<in> set (nodes (workflow ex))"
    by (auto simp: find_Some_iff)
  with s have i: "node_id (f start_node) = node_id start_node"
    by (simp add: same_read_def)
  from Some n find_map_type [OF s, of START]
  have f': "find (\<lambda>node. node_type node = START) (nodes (workflow ex')) = Some (f start_node)"
    by simp
  have b: "build ex' = build ex"
    using r n e s by (rule build_same_read)
  show ?thesis
  proof (cases "build ex")
    case (Inl err)
    with Some f' b show ?thesis
      by (simp add: run_traced_def split: option.splits)
  next
    case (Inr g)
    from run_loop_same_read [OF Inr c n s]
    have "\<And>budget cur state. run_loop ex' g budget cur state = run_loop ex g budget cur state" .
    with Some f' b Inr i n show ?thesis
      by (simp add: run_traced_def ainvoke_def split: option.splits)
  qed
qed

text \<open>
  C5, counterexample. An end node with two reference inputs, the second one to an
  output \<open>answer\<close> that the start node never produces: the handler reads the first
  reference only, and the run completes and yields \<open>"hi"\<close>.
\<close>

theorem unread_reference_no_failure:
  "produced (initial_state ''start'' (PStr ''hi'')) ''start'' ''answer'' = False \<and>
   run_traced two_refs_executor [''question'' \<mapsto> PStr ''hi''] = ([''start'', ''end''], Inr ''hi'')"
  by (simp add: two_refs_executor_def two_refs_workflow_def fixtures node_types run_defs
      produced_def numeral_2_eq_2)

text \<open>
  C5, as amended. A reference is resolved when a handler reads it, and reading an
  output that the store does not hold (no entry for the source node, or no such name in
  it) raises \<open>KeyError\<close>; there is no \<open>UnresolvedReferenceError\<close>. For a state whose
  current node is \<open>node\<close>:

  \<^item> the start handler reads nothing and returns the state;
  \<^item> the model and the knowledge base handler read every reference input: they raise
    \<open>KeyError\<close> when one of them is not produced, and when all are produced the
    resolution succeeds (the knowledge base handler then returns its result);
  \<^item> the end handler reads its first reference input and nothing after it: it raises
    \<open>KeyError\<close> when that output is not produced, and otherwise returns the state with
    that value as final output, whatever the parameters \<open>rest\<close> after it refer to;
  \<^item> the condition handler reads the comparisons of the first group in order, up to
    the first satisfied one: with the comparisons \<open>pre\<close> before \<open>c\<close> unsatisfied, it
    raises \<open>KeyError\<close> when an operand of \<open>c\<close> reads an output not produced, and
    returns the tag \<open>"true"\<close> when \<open>c\<close> is satisfied, whatever the comparisons \<open>post\<close>
    and the groups \<open>later\<close> hold; with every comparison of the first group unsatisfied
    it returns the tag \<open>"false"\<close>, whatever the groups \<open>later\<close> hold;
  \<^item> a comparison raises \<open>KeyError\<close> exactly when the first entry of its left or of
    its right operand refers to an output not produced; the entries of an operand after
    the first are not read.

  The run loop stops at the node whose handler fails, and completes at the finish point
  when the handler returns; \<open>run\<close> raises the \<open>KeyError\<close> of the loop and then yields
  no character. Two workflows whose nodes differ only in what no handler reads (the
  input parameters of end nodes after the first reference, the groups of condition
  nodes after the first) have the same run: the same nodes visited, the same error or
  the same text.
\<close>

theorem unresolved_reference:
  "(node_output_value state b n = Inl KeyError \<longleftrightarrow> \<not> produced state b n) \<and>
   (get_node_by_id (workflow ex) (current_node state) = Some node \<longrightarrow>
      handle_start_node ex state = Inr state \<and>
      ((\<exists>p\<in>set (input_params node). \<exists>b n. val (input p) = Ref b n \<and> \<not> produced state b n) \<longrightarrow>
         handle_llm_node ex state = Inl KeyError \<and> handle_kb_node ex state = Inl KeyError) \<and>
      ((\<forall>p\<in>set (input_params node). \<forall>b n. val (input p) = Ref b n \<longrightarrow> produced state b n) \<longrightarrow>
         (\<exists>inps. llm_inputs state (input_params node) [] = Inr inps) \<and>
         handle_kb_node ex state =
           Inr (state\<lparr>node_outputs :=
             AList.update (node_id node)
               [(''context'', \<lparr>out_value = PStr kb_context, out_type = ''string''\<rparr>)]
               (node_outputs state)\<rparr>)) \<and>
      (\<forall>lits p rest b n.
         input_params node = lits @ p # rest \<longrightarrow>
         (\<forall>q\<in>set lits. \<not> is_ref (val (input q))) \<longrightarrow>
         val (input p) = Ref b n \<longrightarrow>
         (\<not> produced state b n \<longrightarrow> handle_end_node ex state = Inl KeyError) \<and>
         (\<forall>v. node_output_value state b n = Inr v \<longrightarrow>
            handle_end_node ex state = Inr (state\<lparr>final_output := v\<rparr>))) \<and>
      (\<forall>branch later pre c post.
         node_branches node = branch # later \<longrightarrow>
         conditions (condition branch) = pre @ c # post \<longrightarrow>
         (\<forall>c'\<in>set pre. eval_condition state c' = Inr False) \<longrightarrow>
         (dangling_operand state (left c) \<or> dangling_operand state (right c) \<longrightarrow>
            handle_condition_node ex state = Inl KeyError) \<and>
         (eval_condition state c = Inr True \<longrightarrow>
            handle_condition_node ex state = Inr (state\<lparr>condition_result := Some ''true''\<rparr>))) \<and>
      (\<forall>branch later.
         node_branches node = branch # later \<longrightarrow>
         (\<forall>c\<in>set (conditions (condition branch)). eval_condition state c = Inr False) \<longrightarrow>
         handle_condition_node ex state = Inr (state\<lparr>condition_result := Some ''false''\<rparr>))) \<and>
   (\<forall>c. eval_condition state c = Inl KeyError \<longleftrightarrow>
      dangling_operand state (left c) \<or> dangling_operand state (right c)) \<and>
   (\<forall>entry others.
      get_condition_value state (entry # others) = get_condition_value state [entry]) \<and>
   (\<forall>g cur h budget.
      map_of (graph_nodes g) cur = Some h \<longrightarrow>
      (wrapped_handler ex cur h state = Inl KeyError \<longrightarrow>
         run_loop ex g (Suc budget) cur state = ([cur], Inl KeyError)) \<and>
      (\<forall>state'. wrapped_handler ex cur h state = Inr state' \<longrightarrow> cur = finish_point g \<longrightarrow>
         run_loop ex g (Suc budget) cur state = ([cur], Inr state'))) \<and>
   (\<forall>start_node question g visited.
      find (\<lambda>node. node_type node = START) (nodes (workflow ex)) = Some start_node \<longrightarrow>
      inps ''question'' = Some question \<longrightarrow>
      build ex = Inr g \<longrightarrow>
      ainvoke ex g (initial_state (node_id start_node) question)
        (length (nodes (workflow ex)) * 2) = (visited, Inl KeyError) \<longrightarrow>
      run_traced ex inps = (visited, Inl KeyError)) \<and>
   (\<forall>ex' f.
      graph_rules ex' = graph_rules ex \<longrightarrow>
      chat_model ex' = chat_model ex \<longrightarrow>
      nodes (workflow ex') = map f (nodes (workflow ex)) \<longrightarrow>
      edges (workflow ex') = edges (workflow ex) \<longrightarrow>
      (\<forall>n\<in>set (nodes (workflow ex)). same_read n (f n)) \<longrightarrow>
      run_traced ex' inps = run_traced ex inps)"
proof (intro conjI allI impI)
  show "node_output_value state b n = Inl KeyError \<longleftrightarrow> \<not> produced state b n"
    by (rule node_output_value_produced)
next
  assume "get_node_by_id (workflow ex) (current_node state) = Some node"
  then show "handle_start_node ex state = Inr state"
    by (simp add: handle_start_node_def)
next
  assume "get_node_by_id (workflow ex) (current_node state) = Some node"
     and "\<exists>p\<in>set (input_params node). \<exists>b n. val (input p) = Ref b n \<and> \<not> produced state b n"
  then show "handle_llm_node ex state = Inl KeyError"
    by (simp add: handle_llm_node_def llm_inputs_dangling)
next
  assume "get_node_by_id (workflow ex) (current_node state) = Some node"
     and "\<exists>p\<in>set (input_params node). \<exists>b n. val (input p) = Ref b n \<and> \<not> produced state b n"
  then show "handle_kb_node ex state = Inl KeyError"
    by (simp add: handle_kb_node_def kb_query_dangling)
next
  assume "\<forall>p\<in>set (input_params node). \<forall>b n. val (input p) = Ref b n \<longrightarrow> produced state b n"
  then show "\<exists>inps. llm_inputs state (input_params node) [] = Inr inps"
    by (rule llm_inputs_produced)
next
  assume g: "get_node_by_id (workflow ex) (current_node state) = Some node"
     and "\<forall>p\<in>set (input_params node). \<forall>b n. val (input p) = Ref b n \<longrightarrow> produced state b n"
  then obtain q where "kb_query state (input_params node) (PStr []) = Inr q"
    using kb_query_produced by blast
  with g show "handle_kb_node ex state =
      Inr (state\<lparr>node_outputs :=
        AList.update (node_id node)
          [(''context'', \<lparr>out_value = PStr kb_context, out_type = ''string''\<rparr>)]
          (node_outputs state)\<rparr>)"
    by (simp add: handle_kb_node_def)
next
  fix lits p rest b n
  assume "get_node_by_id (workflow ex) (current_node state) = Some node"
     and "input_params node = lits @ p # rest"
     and "\<forall>q\<in>set lits. \<not> is_ref (val (input q))"
     and "val (input p) = Ref b n"
     and "\<not> produced state b n"
  then show "handle_end_node ex state = Inl KeyError"
    by (simp add: handle_end_node_def end_output_dangling)
next
  fix lits p rest b n v
  assume "get_node_by_id (workflow ex) (current_node state) = Some node"
     and "input_params node = lits @ p # rest"
     and "\<forall>q\<in>set lits. \<not> is_ref (val (input q))"
     and "val (input p) = Ref b n"
     and "node_output_value state b n = Inr v"
  then show "handle_end_node ex state = Inr (state\<lparr>final_output := v\<rparr>)"
    by (simp add: handle_end_node_def end_output_first)
next
  fix branch later pre c post
  assume "get_node_by_id (workflow ex) (current_node state) = Some node"
     and "node_branches node = branch # later"
     and "conditions (condition branch) = pre @ c # post"
     and "\<forall>c'\<in>set pre. eval_condition state c' = Inr False"
     and "dangling_operand state (left c) \<or> dangling_operand state (right c)"
  then show "handle_condition_node ex state = Inl KeyError"
    by (simp add: handle_condition_node_def eval_conditions_error eval_condition_dangling)
next
  fix branch later pre c post
  assume "get_node_by_id (workflow ex) (current_node state) = Some node"
     and "node_branches node = branch # later"
     and "conditions (condition branch) = pre @ c # post"
     and "\<forall>c'\<in>set pre. eval_condition state c' = Inr False"
     and "eval_condition state c = Inr True"
  then show "handle_condition_node ex state = Inr (state\<lparr>condition_result := Some ''true''\<rparr>)"
    by (simp add: handle_condition_node_def eval_conditions_satisfied)
next
  fix branch later
  assume "get_node_by_id (workflow ex) (current_node state) = Some node"
     and "node_branches node = branch # later"
     and "\<forall>c\<in>set (conditions (condition branch)). eval_condition state c = Inr False"
  then show "handle_condition_node ex state = Inr (state\<lparr>condition_result := Some ''false''\<rparr>)"
    by (simp add: handle_condition_node_def eval_conditions_all_false)
next
  fix c
  show "eval_condition state c = Inl KeyError \<longleftrightarrow>
          dangling_operand state (left c) \<or> dangling_operand state (right c)"
    by (rule eval_condition_key_error)
next
  fix entry others
  show "get_condition_value state (entry # others) = get_condition_value state [entry]"
    by (rule get_condition_value_first)
next
  fix g :: StateGraph and cur h budget
  assume "map_of (graph_nodes g) cur = Some h"
     and "wrapped_handler ex cur h state = Inl KeyError"
  then show "run_loop ex g (Suc budget) cur state = ([cur], Inl KeyError)"
    by (rule run_loop_handler_error)
next
  fix g :: StateGraph and cur h budget state'
  assume "map_of (graph_nodes g) cur = Some h"
     and "wrapped_handler ex cur h state = Inr state'"
     and "cur = finish_point g"
  then show "run_loop ex g (Suc budget) cur state = ([cur], Inr state')"
    by (rule run_loop_finish)
next
  fix start_node :: Node and question visited and g :: StateGraph
  assume "find (\<lambda>node. node_type node = START) (nodes (workflow ex)) = Some start_node"
     and "inps ''question'' = Some question"
     and "build ex = Inr g"
     and "ainvoke ex g (initial_state (node_id start_node) question)
            (length (nodes (workflow ex)) * 2) = (visited, Inl KeyError)"
  then show "run_traced ex inps = (visited, Inl KeyError)"
    by (simp add: run_traced_def escaping_def)
next
  fix ex' :: WorkflowExecutor and f
  assume "graph_rules ex' = graph_rules ex"
     and "chat_model ex' = chat_model ex"
     and "nodes (workflow ex') = map f (nodes (workflow ex))"
     and "edges (workflow ex') = edges (workflow ex)"
     and "\<forall>n\<in>set (nodes (workflow ex)). same_read n (f n)"
  then show "run_traced ex' inps = run_traced ex inps"
    by (rule run_traced_same_read)
qed

text \<open>
  The model node of the first workflow below refers to an output \<open>answer\<close> of the
  start node, which holds \<open>question\<close> only: the handler raises \<open>KeyError\<close>, and so does
  the run. The end node of the second workflow refers to \<open>question\<close> and then to
  \<open>answer\<close>: the handler returns the question as final output, and the run is the run
  of the workflow without the second reference.
\<close>

theorem unresolved_reference_witness:
  "get_node_by_id (workflow dangling_executor) ''model''
     = Some (param_node ''model'' LLM [ref_input ''text'' ''start'' ''answer'']) \<and>
   produced ((initial_state ''start'' (PStr ''hi''))\<lparr>current_node := ''model''\<rparr>)
     ''start'' ''answer'' = False \<and>
   handle_llm_node dangling_executor
     ((initial_state ''start'' (PStr ''hi''))\<lparr>current_node := ''model''\<rparr>) = Inl KeyError \<and>
   run_traced dangling_executor [''question'' \<mapsto> PStr ''hi'']
     = ([''start'', ''model''], Inl KeyError) \<and>
   input_params (param_node ''end'' END
       [ref_input ''result'' ''start'' ''question'', ref_input ''other'' ''start'' ''answer''])
     = [] @ ref_input ''result'' ''start'' ''question'' # [ref_input ''other'' ''start'' ''answer''] \<and>
   handle_end_node two_refs_executor
     ((initial_state ''start'' (PStr ''hi''))\<lparr>current_node := ''end''\<rparr>)
     = Inr ((initial_state ''start'' (PStr ''hi''))
              \<lparr>current_node := ''end'', final_output := PStr ''hi''\<rparr>) \<and>
   run_traced
     (two_refs_executor\<lparr>workflow := two_refs_workflow
        \<lparr>nodes := [param_node ''start'' START [],
                   param_node ''end'' END [ref_input ''result'' ''start'' ''question'']]\<rparr>\<rparr>)
     [''question'' \<mapsto> PStr ''hi'']
     = run_traced two_refs_executor [''question'' \<mapsto> PStr ''hi'']"
proof -
  let ?st = "(initial_state ''start'' (PStr ''hi''))\<lparr>current_node := ''model''\<rparr>"
  let ?node = "param_node ''model'' LLM [ref_input ''text'' ''start'' ''answer'']"
  have n: "get_node_by_id (workflow dangling_executor) (current_node ?st) = Some ?node"
    by (simp add: dangling_executor_def dangling_workflow_def fixtures node_types
        get_node_by_id_def initial_state_def)
  have p: "\<not> produced ?st ''start'' ''answer''"
    by (simp add: produced_def initial_state_def)
  have d: "\<exists>p\<in>set (input_params ?node). \<exists>b n. val (input p) = Ref b n \<and> \<not> produced ?st b n"
    using p by (simp add: input_params_def fixtures)
  note u = unresolved_reference [where state = ?st and ex = dangling_executor and node = ?node]
  from u [THEN conjunct2, THEN conjunct1, THEN mp, OF n, THEN conjunct2, THEN conjunct1,
      THEN mp, OF d]
  have h: "handle_llm_node dangling_executor ?st = Inl KeyError"
    by (rule conjunct1)
  have r: "run_traced dangling_executor [''question'' \<mapsto> PStr ''hi'']
             = ([''start'', ''model''], Inl KeyError)"
    by (simp add: dangling_executor_def dangling_workflow_def fixtures node_types run_defs
        numeral_3_eq_3)
  let ?st2 = "(initial_state ''start'' (PStr ''hi''))\<lparr>current_node := ''end''\<rparr>"
  let ?first = "ref_input ''result'' ''start'' ''question''"
  let ?other = "ref_input ''other'' ''start'' ''answer''"
  let ?end = "param_node ''end'' END [?first, ?other]"
  let ?inps = "[''question'' \<mapsto> PStr ''hi'']"
  have n2: "get_node_by_id (workflow two_refs_executor) (current_node ?st2) = Some ?end"
    by (simp add: two_refs_executor_def two_refs_workflow_def fixtures node_types
        get_node_by_id_def initial_state_def)
  have i2: "input_params ?end = [] @ ?first # [?other]"
    by (simp add: input_params_def fixtures)
  have l2: "\<forall>q\<in>set []. \<not> is_ref (val (input q))"
    by simp
  have f2: "val (input ?first) = Ref ''start'' ''question''"
    by (simp add: fixtures)
  have v2: "node_output_value ?st2 ''start'' ''question'' = Inr (PStr ''hi'')"
    by (simp add: node_output_value_def initial_state_def)
  note u2 = unresolved_reference
    [where state = ?st2 and ex = two_refs_executor and node = ?end and inps = ?inps]
  from u2 [THEN conjunct2, THEN conjunct1, THEN mp, OF n2, THEN conjunct2, THEN conjunct2,
      THEN conjunct2, THEN conjunct1, THEN spec [of _ "[]"], THEN spec [of _ ?first],
      THEN spec [of _ "[?other]"], THEN spec [of _ "''start''"],
      THEN spec [of _ "''question''"], THEN mp, OF i2, THEN mp, OF l2, THEN mp, OF f2,
      THEN conjunct2, THEN spec [of _ "PStr ''hi''"], THEN mp, OF v2]
  have h2: "handle_end_node two_refs_executor ?st2 = Inr (?st2\<lparr>final_output := PStr ''hi''\<rparr>)" .
  let ?f = "\<lambda>node. if node_id node = ''end'' then param_node ''end'' END [?first] else node"
  let ?ex' = "two_refs_executor\<lparr>workflow := two_refs_workflow
      \<lparr>nodes := [param_node ''start'' START [], param_node ''end'' END [?first]]\<rparr>\<rparr>"
  have a1: "graph_rules ?ex' = graph_rules two_refs_executor"
    by simp
  have a2: "chat_model ?ex' = chat_model two_refs_executor"
    by simp
  have a3: "nodes (workflow ?ex') = map ?f (nodes (workflow two_refs_executor))"
    by (simp add: two_refs_executor_def two_refs_workflow_def fixtures)
  have a4: "edges (workflow ?ex') = edges (workflow two_refs_executor)"
    by (simp add: two_refs_executor_def)
  have a5: "\<forall>n\<in>set (nodes (workflow two_refs_executor)). same_read n (?f n)"
    by (simp add: two_refs_executor_def two_refs_workflow_def fixtures node_types
        same_read_def input_params_def)
  from u2 [THEN conjunct2, THEN conjunct2, THEN conjunct2, THEN conjunct2, THEN conjunct2,
      THEN conjunct2, THEN spec [of _ ?ex'], THEN spec [of _ ?f], THEN mp, OF a1, THEN mp,
      OF a2, THEN mp, OF a3, THEN mp, OF a4, THEN mp, OF a5]
  have r2: "run_traced ?ex' ?inps = run_traced two_refs_executor ?inps" .
  from n have n': "get_node_by_id (workflow dangling_executor) ''model'' = Some ?node"
    by (simp add: initial_state_def)
  from p have p': "produced ?st ''start'' ''answer'' = False"
    by simp
  from h2 have h2': "handle_end_node two_refs_executor ?st2
      = Inr ((initial_state ''start'' (PStr ''hi''))
               \<lparr>current_node := ''end'', final_output := PStr ''hi''\<rparr>)"
    by simp
  from n' p' h r i2 h2' r2 show ?thesis
    by (intro conjI)
qed

section \<open>The step budget\<close>

lemma run_loop_length: "length (fst (run_loop ex g budget cur state)) \<le> budget"
  by (induction budget arbitrary: cur state)
    (auto simp: case_prod_beta split: option.splits sum.splits)

lemma run_loop_budget:
  "(length (fst (run_loop ex g budget cur state)) = budget \<and>
    snd (run_loop ex g budget cur state) = Inl RecursionLimitError) \<or>
   (\<forall>more. run_loop ex g (budget + more) cur state = run_loop ex g budget cur state)"
proof (induction budget arbitrary: cur state)
  case 0
  show ?case by simp
next
  case (Suc budget)
  show ?case
  proof (cases "map_of (graph_nodes g) cur")
    case None
    then show ?thesis by simp
  next
    case (Some h)
    show ?thesis
    proof (cases "wrapped_handler ex cur h state")
      case (Inl e)
      with Some show ?thesis by simp
    next
      case (Inr state1)
      show ?thesis
      proof (cases "cur = finish_point g")
        case True
        with Some Inr show ?thesis by simp
      next
        case False
        show ?thesis
        proof (cases "successor g cur state1")
          case (Inl e)
          with Some Inr False show ?thesis by simp
        next
          case nxt: (Inr nxt)
          from Suc.IH [of nxt state1] Some Inr False nxt show ?thesis
            by (auto simp: case_prod_beta)
        qed
      qed
    qed
  qed
qed

lemma run_loop_registered:
  "x \<in> set (fst (run_loop ex g budget cur state)) \<Longrightarrow> map_of (graph_nodes g) x \<noteq> None"
  by (induction budget arbitrary: cur state)
    (auto simp: case_prod_beta split: option.splits sum.splits if_splits)

lemma route_collect_edge:
  "route (collect_condition_edges es ce) s tag = Some t \<Longrightarrow>
     route ce s tag = Some t \<or>
     (\<exists>e\<in>set es. sourceNodeID e = s \<and> targetNodeID e = t)"
proof (induction es arbitrary: ce)
  case Nil
  then show ?case by simp
next
  case (Cons edge rest)
  show ?case
  proof (cases "sourcePortID edge \<noteq> []")
    case True
    with Cons.prems Cons.IH show ?thesis
      by (fastforce simp: route_update split: if_splits)
  next
    case False
    with Cons.prems Cons.IH show ?thesis
      by fastforce
  qed
qed

lemma successor_edge:
  assumes b: "build ex = Inr g" and s: "successor g cur state = Inr nxt"
  shows "\<exists>e\<in>set (edges (workflow ex)). sourceNodeID e = cur \<and> targetNodeID e = nxt"
proof -
  from b have
    c: "condition_edges g = collect_condition_edges (edges (workflow ex)) []" and
    p: "plain_edges g =
          map (\<lambda>edge. (sourceNodeID edge, targetNodeID edge))
            (filter (\<lambda>edge. sourcePortID edge = []) (edges (workflow ex)))"
    by (auto elim: build_graph)
  show ?thesis
  proof (cases "map_of (condition_edges g) cur")
    case None
    with s have "map_of (plain_edges g) cur = Some nxt"
      by (auto simp: successor_def split: option.splits)
    then have "(cur, nxt) \<in> set (plain_edges g)"
      by (rule map_of_SomeD)
    then show ?thesis
      by (auto simp: p)
  next
    case (Some paths)
    with s have "route (condition_edges g) cur (should_continue state) = Some nxt"
      by (auto simp: successor_def route_def split: option.splits)
    from route_collect_edge [OF this [unfolded c]] show ?thesis
      by (simp add: route_empty)
  qed
qed

lemma run_loop_acyclic:
  assumes b: "build ex = Inr g"
      and r: "\<forall>e\<in>set (edges (workflow ex)). rank (sourceNodeID e) < (rank (targetNodeID e) :: nat)"
  shows "distinct (fst (run_loop ex g budget cur state)) \<and>
         (\<forall>x\<in>set (fst (run_loop ex g budget cur state)). rank cur \<le> rank x)"
proof (induction budget arbitrary: cur state)
  case 0
  show ?case by simp
next
  case (Suc budget)
  show ?case
  proof (cases "map_of (graph_nodes g) cur")
    case None
    then show ?thesis by simp
  next
    case (Some h)
    show ?thesis
    proof (cases "wrapped_handler ex cur h state")
      case (Inl e)
      with Some show ?thesis by simp
    next
      case (Inr state1)
      show ?thesis
      proof (cases "cur = finish_point g")
        case True
        with Some Inr show ?thesis by simp
      next
        case False
        show ?thesis
        proof (cases "successor g cur state1")
          case (Inl e)
          with Some Inr False show ?thesis by simp
        next
          case nxt: (Inr nxt)
          from successor_edge [OF b nxt] r have lt: "rank cur < rank nxt"
            by auto
          from Suc.IH [of nxt state1] lt
          have "distinct (fst (run_loop ex g budget nxt state1))"
            and "\<forall>x\<in>set (fst (run_loop ex g budget nxt state1)). rank cur < rank x"
            by auto
          with Some Inr False nxt show ?thesis
            by (auto simp: case_prod_beta less_imp_le)
        qed
      qed
    qed
  qed
qed

lemma run_loop_acyclic_length:
  assumes b: "build ex = Inr g"
      and r: "\<forall>e\<in>set (edges (workflow ex)). rank (sourceNodeID e) < (rank (targetNodeID e) :: nat)"
  shows "length (fst (run_loop ex g budget cur state)) \<le> length (nodes (workflow ex))"
proof -
  let ?visited = "fst (run_loop ex g budget cur state)"
  from run_loop_acyclic [OF b r] have d: "distinct ?visited"
    by simp
  have "set ?visited \<subseteq> node_id ` set (nodes (workflow ex))"
  proof
    fix x
    assume "x \<in> set ?visited"
    then obtain h where "map_of (graph_nodes g) x = Some h"
      using run_loop_registered by fastforce
    from build_registered [OF b this] show "x \<in> node_id ` set (nodes (workflow ex))"
      by auto
  qed
  then have "card (set ?visited) \<le> card (node_id ` set (nodes (workflow ex)))"
    by (simp add: card_mono)
  also have "\<dots> \<le> card (set (nodes (workflow ex)))"
    by (simp add: card_image_le)
  also have "\<dots> \<le> length (nodes (workflow ex))"
    by (rule card_length)
  finally show ?thesis
    using d by (simp add: distinct_card)
qed

lemma build_nodes_nonempty: "build ex = Inr g \<Longrightarrow> nodes (workflow ex) \<noteq> []"
  by (auto elim!: build_graph)

lemma run_traced_started:
  assumes "find (\<lambda>node. node_type node = START) (nodes (workflow ex)) = Some start_node"
      and "inps ''question'' = Some question"
      and "build ex = Inr g"
  shows "fst (run_traced ex inps) =
           fst (run_loop ex g (length (nodes (workflow ex)) * 2) (entry_point g)
                  (initial_state (node_id start_node) question))"
  using assms
  by (simp add: run_traced_def ainvoke_def split: prod.splits sum.splits pyval.splits)

lemma run_traced_visited:
  "fst (run_traced ex inps) = [] \<or>
   (\<exists>(start_node :: Node) question g.
      build ex = Inr g \<and>
      fst (run_traced ex inps) =
        fst (run_loop ex g (length (nodes (workflow ex)) * 2) (entry_point g)
               (initial_state (node_id start_node) question)))"
proof (cases "find (\<lambda>node. node_type node = START) (nodes (workflow ex))")
  case None
  then show ?thesis by (simp add: run_traced_def)
next
  case start: (Some start_node)
  show ?thesis
  proof (cases "inps ''question''")
    case None
    with start show ?thesis by (simp add: run_traced_def)
  next
    case question: (Some question)
    show ?thesis
    proof (cases "build ex")
      case (Inl e)
      with start question show ?thesis by (simp add: run_traced_def)
    next
      case (Inr g)
      from run_traced_started [of ex start_node inps question g, OF start question Inr] Inr
      show ?thesis
        by blast
    qed
  qed
qed

text \<open>
  C7, counterexample. The loop workflow meets every invariant of a well-formed graph:
  one start node, one end node, edges between its nodes, tagged edges from the
  condition node only, and both tags on them. Its condition is never satisfied and its
  \<open>"false"\<close> edge leads back to the model node, so the run visits the model node four
  times, uses up its budget of eight handler calls and fails with
  \<open>RecursionLimitError\<close>.
\<close>

theorem well_formed_loop_exceeds_budget:
  "well_formed loop_workflow \<and>
   run_traced loop_executor [''question'' \<mapsto> PStr ''hi'']
     = ([''start'', ''model'', ''check'', ''model'', ''check'', ''model'', ''check'', ''model''],
        Inl RecursionLimitError) \<and>
   distinct (fst (run_traced loop_executor [''question'' \<mapsto> PStr ''hi''])) = False"
proof -
  have w: "well_formed loop_workflow"
    by (simp add: well_formed_def is_node_def is_condition_node_def has_port_def
        loop_workflow_def fixtures node_types)
  have r: "run_traced loop_executor [''question'' \<mapsto> PStr ''hi'']
     = ([''start'', ''model'', ''check'', ''model'', ''check'', ''model'', ''check'', ''model''],
        Inl RecursionLimitError)"
    by code_simp
  from w r show ?thesis
    by simp
qed

text \<open>
  C7, as amended. One run invokes node handlers at most twice the number of nodes
  times. The budget acts only when it is used up: a run of the loop with a budget
  either made exactly that many handler calls and failed with \<open>RecursionLimitError\<close>,
  or it gives the same result with any larger budget. For a graph without a cycle
  (some ranking of the node IDs grows along every edge), the run visits each node at
  most once, makes at most as many handler calls as there are nodes, and does not use
  the budget up. Being well-formed is not enough for that, as the loop workflow shows.
\<close>

theorem run_step_budget:
  "length (fst (run_traced ex inps)) \<le> 2 * length (nodes (workflow ex)) \<and>
   (\<forall>g budget cur state.
      (length (fst (run_loop ex g budget cur state)) = budget \<and>
       snd (run_loop ex g budget cur state) = Inl RecursionLimitError) \<or>
      (\<forall>more. run_loop ex g (budget + more) cur state = run_loop ex g budget cur state)) \<and>
   ((\<exists>rank :: string \<Rightarrow> nat.
       \<forall>e\<in>set (edges (workflow ex)). rank (sourceNodeID e) < rank (targetNodeID e)) \<longrightarrow>
      distinct (fst (run_traced ex inps)) \<and>
      length (fst (run_traced ex inps)) \<le> length (nodes (workflow ex)) \<and>
      (\<forall>g state more.
         build ex = Inr g \<longrightarrow>
         run_loop ex g (length (nodes (workflow ex)) * 2 + more) (entry_point g) state
           = run_loop ex g (length (nodes (workflow ex)) * 2) (entry_point g) state))"
proof (intro conjI allI impI)
  from run_traced_visited [of ex inps]
  show "length (fst (run_traced ex inps)) \<le> 2 * length (nodes (workflow ex))"
  proof
    assume "fst (run_traced ex inps) = []"
    then show ?thesis by simp
  next
    assume "\<exists>(start_node :: Node) question g.
      build ex = Inr g \<and>
      fst (run_traced ex inps) =
        fst (run_loop ex g (length (nodes (workflow ex)) * 2) (entry_point g)
               (initial_state (node_id start_node) question))"
    then obtain start_node :: Node and question g where
      "fst (run_traced ex inps) =
        fst (run_loop ex g (length (nodes (workflow ex)) * 2) (entry_point g)
               (initial_state (node_id start_node) question))"
      by blast
    with run_loop_length [of ex g "length (nodes (workflow ex)) * 2"] show ?thesis
      by (simp add: mult.commute)
  qed
next
  fix g :: StateGraph and budget cur and state :: WorkflowState
  show "(length (fst (run_loop ex g budget cur state)) = budget \<and>
         snd (run_loop ex g budget cur state) = Inl RecursionLimitError) \<or>
        (\<forall>more. run_loop ex g (budget + more) cur state = run_loop ex g budget cur state)"
    by (rule run_loop_budget)
next
  assume "\<exists>rank :: string \<Rightarrow> nat.
            \<forall>e\<in>set (edges (workflow ex)). rank (sourceNodeID e) < rank (targetNodeID e)"
  then obtain rank :: "string \<Rightarrow> nat" where
    r: "\<forall>e\<in>set (edges (workflow ex)). rank (sourceNodeID e) < rank (targetNodeID e)"
    by blast
  from run_traced_visited [of ex inps]
  show "distinct (fst (run_traced ex inps))"
  proof
    assume "fst (run_traced ex inps) = []"
    then show ?thesis by simp
  next
    assume "\<exists>(start_node :: Node) question g.
      build ex = Inr g \<and>
      fst (run_traced ex inps) =
        fst (run_loop ex g (length (nodes (workflow ex)) * 2) (entry_point g)
               (initial_state (node_id start_node) question))"
    then obtain start_node :: Node and question g where
      b: "build ex = Inr g" and
      v: "fst (run_traced ex inps) =
            fst (run_loop ex g (length (nodes (workflow ex)) * 2) (entry_point g)
                   (initial_state (node_id start_node) question))"
      by blast
    from run_loop_acyclic [OF b r] v show ?thesis
      by simp
  qed
  from run_traced_visited [of ex inps]
  show "length (fst (run_traced ex inps)) \<le> length (nodes (workflow ex))"
  proof
    assume "fst (run_traced ex inps) = []"
    then show ?thesis by simp
  next
    assume "\<exists>(start_node :: Node) question g.
      build ex = Inr g \<and>
      fst (run_traced ex inps) =
        fst (run_loop ex g (length (nodes (workflow ex)) * 2) (entry_point g)
               (initial_state (node_id start_node) question))"
    then obtain start_node :: Node and question g where
      b: "build ex = Inr g" and
      v: "fst (run_traced ex inps) =
            fst (run_loop ex g (length (nodes (workflow ex)) * 2) (entry_point g)
                   (initial_state (node_id start_node) question))"
      by blast
    from run_loop_acyclic_length [OF b r] v show ?thesis
      by simp
  qed
  {
    fix g :: StateGraph and state :: WorkflowState and more
    assume b: "build ex = Inr g"
    let ?n = "length (nodes (workflow ex))"
    from build_nodes_nonempty [OF b] have "0 < ?n"
      by simp
    moreover from run_loop_acyclic_length [OF b r]
    have "length (fst (run_loop ex g (?n * 2) (entry_point g) state)) \<le> ?n" .
    ultimately have "length (fst (run_loop ex g (?n * 2) (entry_point g) state)) \<noteq> ?n * 2"
      by linarith
    with run_loop_budget [of ex g "?n * 2" "entry_point g" state]
    show "run_loop ex g (?n * 2 + more) (entry_point g) state
            = run_loop ex g (?n * 2) (entry_point g) state"
      by blast
  }
qed

theorem run_step_budget_witness:
  "list_all (\<lambda>e. echo_rank (sourceNodeID e) < echo_rank (targetNodeID e))
     (edges (workflow (echo_executor ''start'' ''model'' ''end'' (PStr ''hi'')))) \<and>
   fst (run_traced (echo_executor ''start'' ''model'' ''end'' (PStr ''hi''))
          [''question'' \<mapsto> PStr ''hi'']) = [''start'', ''model'', ''end''] \<and>
   distinct (fst (run_traced (echo_executor ''start'' ''model'' ''end'' (PStr ''hi''))
          [''question'' \<mapsto> PStr ''hi''])) \<and>
   length (fst (run_traced (echo_executor ''start'' ''model'' ''end'' (PStr ''hi''))
          [''question'' \<mapsto> PStr ''hi''])) \<le> 3"
proof -
  let ?ex = "echo_executor ''start'' ''model'' ''end'' (PStr ''hi'')"
  let ?inps = "[''question'' \<mapsto> PStr ''hi'']"
  have r: "\<forall>e\<in>set (edges (workflow ?ex)). echo_rank (sourceNodeID e) < echo_rank (targetNodeID e)"
    by (simp add: echo_executor_def echo_workflow_def fixtures echo_rank_def)
  then have a: "\<exists>rank :: string \<Rightarrow> nat.
      \<forall>e\<in>set (edges (workflow ?ex)). rank (sourceNodeID e) < rank (targetNodeID e)"
    by (rule exI [where x = echo_rank])
  have n: "length (nodes (workflow ?ex)) = 3"
    by (simp add: echo_executor_def echo_workflow_def)
  note u = run_step_budget [of ?ex ?inps]
  note w = u [THEN conjunct2, THEN conjunct2, THEN mp, OF a]
  have d: "distinct (fst (run_traced ?ex ?inps))"
    using w by (rule conjunct1)
  have l: "length (fst (run_traced ?ex ?inps)) \<le> length (nodes (workflow ?ex))"
    using w [THEN conjunct2] by (rule conjunct1)
  have v: "fst (run_traced ?ex ?inps) = [''start'', ''model'', ''end'']"
    by code_simp
  have e: "list_all (\<lambda>e. echo_rank (sourceNodeID e) < echo_rank (targetNodeID e))
             (edges (workflow ?ex))"
    using r by (simp only: list_all_iff)
  from l n have "length (fst (run_traced ?ex ?inps)) \<le> 3"
    by (simp only:)
  with e v d show ?thesis
    by (simp only: simp_thms)
qed

end
